theory Spec2Isabelle
  imports Complex_Main
begin

section \<open>Numbers, vectors and identifiers\<close>

text \<open>
  The program is the single file \<^verbatim>\<open>src/App.jsx\<close>: a React application with a
  three.js scene. JavaScript numbers are modelled as reals, so rounding is not part of
  the model; every property below is about copies, comparisons and exact rational
  arithmetic. A \<^verbatim>\<open>THREE.Vector3\<close> is a triple of reals. A nullable string
  (\<^verbatim>\<open>null\<close> or a string id) is a \<open>string option\<close>, and JavaScript's truthiness
  test on it (\<^verbatim>\<open>null\<close> and the empty string are falsy) is \<open>truthy\<close>.
\<close>

type_synonym vec3 = "real \<times> real \<times> real"

fun vadd :: "vec3 \<Rightarrow> vec3 \<Rightarrow> vec3" where
  "vadd (ax, ay, az) (bx, by, bz) = (ax + bx, ay + by, az + bz)"

fun multiplyScalar :: "vec3 \<Rightarrow> real \<Rightarrow> vec3" where
  "multiplyScalar (x, y, z) s = (x * s, y * s, z * s)"

fun vlength :: "vec3 \<Rightarrow> real" where
  "vlength (x, y, z) = sqrt (x * x + y * y + z * z)"

text \<open>\<^verbatim>\<open>normalize()\<close> is \<^verbatim>\<open>divideScalar(length() || 1)\<close>: a zero vector stays zero.\<close>

definition normalize :: "vec3 \<Rightarrow> vec3" where
  "normalize v = multiplyScalar v (1 / (if vlength v = 0 then 1 else vlength v))"

fun lerpVectors :: "vec3 \<Rightarrow> vec3 \<Rightarrow> real \<Rightarrow> vec3" where
  "lerpVectors (ax, ay, az) (bx, by, bz) alpha =
     (ax + (bx - ax) * alpha, ay + (by - ay) * alpha, az + (bz - az) * alpha)"

fun truthy :: "string option \<Rightarrow> bool" where
  "truthy None = False"
| "truthy (Some s) = (s \<noteq> [])"

text \<open>
  \<^verbatim>\<open>Array.prototype.findIndex\<close>: the index of the first element satisfying the
  predicate, \<open>-1\<close> when there is none.
\<close>

fun findIndex :: "('a \<Rightarrow> bool) \<Rightarrow> 'a list \<Rightarrow> int" where
  "findIndex P [] = - 1"
| "findIndex P (x # xs) =
     (if P x then 0 else (if findIndex P xs < 0 then - 1 else findIndex P xs + 1))"

section \<open>Orbit curve lookup\<close>

text \<open>
  JavaScript's \<^verbatim>\<open>a % b\<close> on numbers is the truncated remainder (the sign of the
  dividend); \<open>js_rem\<close> is that operation for a non-zero divisor.
\<close>

definition js_trunc :: "real \<Rightarrow> int" where
  "js_trunc x = (if 0 \<le> x then \<lfloor>x\<rfloor> else \<lceil>x\<rceil>)"

definition js_rem :: "real \<Rightarrow> real \<Rightarrow> real" where
  "js_rem a b = a - b * of_int (js_trunc (a / b))"

text \<open>
  \<^verbatim>\<open>getTorusPosition(progress)\<close> fills the module-level cache \<^verbatim>\<open>_torusCurve\<close> on
  first use and evaluates the cached curve at \<^verbatim>\<open>((progress % 1) + 1) % 1\<close>. The
  curve itself is a \<^verbatim>\<open>THREE.CatmullRomCurve3\<close>; its \<^verbatim>\<open>getPointAt\<close> is a
  parameter of the model. \<open>generated\<close> is the curve \<^verbatim>\<open>generateTorusPoints\<close>
  builds, \<open>cache\<close> the content of \<^verbatim>\<open>_torusCurve\<close>; the result is the position and
  the cache afterwards.
\<close>

definition wrapProgress :: "real \<Rightarrow> real" where
  "wrapProgress progress = js_rem (js_rem progress 1 + 1) 1"

definition getTorusPosition ::
  "(real \<Rightarrow> vec3) \<Rightarrow> (real \<Rightarrow> vec3) option \<Rightarrow> real \<Rightarrow> vec3 \<times> (real \<Rightarrow> vec3) option" where
  "getTorusPosition generated cache progress =
     (let curve = (case cache of None \<Rightarrow> generated | Some c \<Rightarrow> c)
      in (curve (wrapProgress progress), Some curve))"

text \<open>
  \<^verbatim>\<open>generateTorusPoints\<close>: the local \<^verbatim>\<open>gcd\<close> loop
  \<^verbatim>\<open>while (b) { [a, b] = [b, a % b]; }\<close>, the number of samples
  \<^verbatim>\<open>stepsToClose\<close>, and the \<open>i\<close>-th raw point. The segment counts are natural
  numbers (the defaults and the only call pass 11 and 12).
\<close>

function gcd_loop :: "nat \<Rightarrow> nat \<Rightarrow> nat" where
  "gcd_loop a b = (if b = 0 then a else gcd_loop b (a mod b))"
  by pat_completeness auto
termination
  by (relation "measure snd") auto

declare gcd_loop.simps [simp del]

definition stepsToClose :: "nat \<Rightarrow> nat \<Rightarrow> nat" where
  "stepsToClose sections spans = (sections * spans) div gcd_loop sections spans"

definition rawPoint :: "real \<Rightarrow> real \<Rightarrow> nat \<Rightarrow> nat \<Rightarrow> nat \<Rightarrow> vec3" where
  "rawPoint radius minorRadius sections spans i =
     (let u = (real i / real sections) * pi * 2;
          t = (real i / real spans) * pi * 2
      in ((radius + minorRadius * cos t) * cos u,
          minorRadius * sin t,
          (radius + minorRadius * cos t) * sin u))"

section \<open>Section data\<close>

text \<open>
  \<^verbatim>\<open>SECTIONS\<close> with the fields the navigation core reads. The colour and the
  subtitle and description texts are presentation data and are left out.
\<close>

record link =
  link_id :: string
  title :: string

record section_rec =
  section_id :: string
  label :: string
  orbitOffset :: real
  orbitSpeed :: real
  links :: "link list"

definition SECTIONS :: "section_rec list" where
  "SECTIONS =
    [\<lparr>section_id = ''art'', label = ''Art'', orbitOffset = 0, orbitSpeed = 0.0018,
       links = [\<lparr>link_id = ''gallery'', title = ''Gallery''\<rparr>,
                \<lparr>link_id = ''instagram'', title = ''Instagram''\<rparr>,
                \<lparr>link_id = ''process'', title = ''Process''\<rparr>]\<rparr>,
     \<lparr>section_id = ''dev'', label = ''Dev'', orbitOffset = 0.2, orbitSpeed = 0.0012,
       links = [\<lparr>link_id = ''projects'', title = ''Projects''\<rparr>,
                \<lparr>link_id = ''github'', title = ''GitHub''\<rparr>,
                \<lparr>link_id = ''resume'', title = ''Resume''\<rparr>]\<rparr>,
     \<lparr>section_id = ''yoga'', label = ''Yoga'', orbitOffset = 0.4, orbitSpeed = 0.0022,
       links = [\<lparr>link_id = ''classes'', title = ''Classes''\<rparr>,
                \<lparr>link_id = ''philosophy'', title = ''Philosophy''\<rparr>,
                \<lparr>link_id = ''training'', title = ''Training''\<rparr>]\<rparr>,
     \<lparr>section_id = ''about'', label = ''About'', orbitOffset = 0.6, orbitSpeed = 0.0014,
       links = [\<lparr>link_id = ''story'', title = ''Story''\<rparr>,
                \<lparr>link_id = ''values'', title = ''Values''\<rparr>,
                \<lparr>link_id = ''press'', title = ''Press''\<rparr>]\<rparr>,
     \<lparr>section_id = ''contact'', label = ''Contact'', orbitOffset = 0.8, orbitSpeed = 0.002,
       links = [\<lparr>link_id = ''email'', title = ''Email''\<rparr>,
                \<lparr>link_id = ''booking'', title = ''Booking''\<rparr>,
                \<lparr>link_id = ''social'', title = ''Social''\<rparr>]\<rparr>]"

text \<open>\<open>link_of s l\<close>: the section with id \<open>s\<close> has a link with id \<open>l\<close>.\<close>

definition link_of :: "string \<Rightarrow> string \<Rightarrow> bool" where
  "link_of s l =
     (case find (\<lambda>sec. section_id sec = s) SECTIONS of
        None \<Rightarrow> False
      | Some sec \<Rightarrow> l \<in> set (map link_id (links sec)))"

text \<open>
  The two look-ups the scene repeats wherever it needs the indices of the active section
  and link: \<^verbatim>\<open>SECTIONS.findIndex((s) => s.id === activeSection)\<close> and, when that
  index is not negative, \<^verbatim>\<open>SECTIONS[sIdx].links.findIndex((l) => l.id === activeLink)\<close>,
  else \<open>-1\<close>.
\<close>

definition sectionIndexOf :: "string option \<Rightarrow> int" where
  "sectionIndexOf activeSec = findIndex (\<lambda>s. Some (section_id s) = activeSec) SECTIONS"

definition linkIndexOf :: "string option \<Rightarrow> string option \<Rightarrow> int" where
  "linkIndexOf activeSec activeLnk =
     (if 0 \<le> sectionIndexOf activeSec
      then findIndex (\<lambda>l. Some (link_id l) = activeLnk)
             (links (SECTIONS ! nat (sectionIndexOf activeSec)))
      else - 1)"

section \<open>Navigation state of the App component\<close>

text \<open>
  The camera phase names passed to \<^verbatim>\<open>onCameraProgress\<close> and stored in
  \<^verbatim>\<open>anim.phase\<close> and in the App state \<^verbatim>\<open>cameraPhase\<close>.
\<close>

datatype camera_phase =
  Idle | Home | FlyToParent | FlyToSub | FlyHome | ParkedAtParent | ParkedAtSub

text \<open>
  The state hooks and the ref of \<^verbatim>\<open>App\<close>. \<^verbatim>\<open>subSpherePositions\<close> (screen
  positions for the label overlay) is not modelled.
\<close>

record app_state =
  activeSection :: "string option"
  activeLink :: "string option"
  cameraPhase :: camera_phase
  cameraProgress :: real
  showConstellation :: bool
  pendingLinkRef :: "string option"

definition initial_app :: app_state where
  "initial_app =
     \<lparr>activeSection = None, activeLink = None, cameraPhase = Idle, cameraProgress = 0,
      showConstellation = False, pendingLinkRef = None\<rparr>"

definition handleToggleConstellation :: "app_state \<Rightarrow> app_state" where
  "handleToggleConstellation st = st\<lparr>showConstellation := \<not> showConstellation st\<rparr>"

definition handleClickSection :: "string \<Rightarrow> app_state \<Rightarrow> app_state" where
  "handleClickSection i st =
     (if activeSection st = Some i \<and> \<not> truthy (activeLink st) then st
      else st\<lparr>pendingLinkRef := None, activeLink := None, activeSection := Some i\<rparr>)"

definition handleBack :: "app_state \<Rightarrow> app_state" where
  "handleBack st = st\<lparr>pendingLinkRef := None, activeLink := None, activeSection := None\<rparr>"

definition handleBackToSection :: "app_state \<Rightarrow> app_state" where
  "handleBackToSection st = st\<lparr>pendingLinkRef := None, activeLink := None\<rparr>"

definition handleCameraProgress :: "camera_phase \<Rightarrow> real \<Rightarrow> app_state \<Rightarrow> app_state" where
  "handleCameraProgress ph pr st = st\<lparr>cameraPhase := ph, cameraProgress := pr\<rparr>"

text \<open>
  The effect with dependencies \<^verbatim>\<open>[cameraPhase, activeSection]\<close>: "When parent fly
  completes and we're parked, fire any queued link".
\<close>

definition pending_link_effect :: "app_state \<Rightarrow> app_state" where
  "pending_link_effect st =
     (if truthy (pendingLinkRef st) \<and> truthy (activeSection st)
         \<and> cameraPhase st = ParkedAtParent
      then st\<lparr>pendingLinkRef := None, activeLink := pendingLinkRef st\<rparr>
      else st)"

definition handleClickSubSphere :: "string \<Rightarrow> string \<Rightarrow> app_state \<Rightarrow> app_state" where
  "handleClickSubSphere sectionId linkId st =
     (if activeSection st \<noteq> Some sectionId
      then st\<lparr>pendingLinkRef := Some linkId, activeLink := None, activeSection := Some sectionId\<rparr>
      else if cameraPhase st = FlyToParent
      then st\<lparr>pendingLinkRef := Some linkId\<rparr>
      else st\<lparr>activeLink := Some linkId\<rparr>)"

text \<open>
  The click handler of a section entry of the navigation bar: on the entry of the active
  section it calls \<^verbatim>\<open>onBackToSection\<close> when a link is open and \<^verbatim>\<open>onBack\<close>
  otherwise; on any other entry it calls \<^verbatim>\<open>onClickSection\<close>.
\<close>

definition navSectionClick :: "string \<Rightarrow> app_state \<Rightarrow> app_state" where
  "navSectionClick sid st =
     (if truthy (activeLink st) \<and> activeSection st = Some sid then handleBackToSection st
      else if activeSection st = Some sid then handleBack st
      else handleClickSection sid st)"

text \<open>
  Everything that can write the App state: the handlers, called with any arguments, and
  the pending-link effect, run at any moment. A moon click is \<open>valid\<close> when it names a
  link of the section it names, as every call site does (the ids are read from
  \<^verbatim>\<open>SECTIONS\<close>).
\<close>

datatype app_event =
  ClickSection string
  | Back
  | BackToSection
  | ClickSubSphere string string
  | CameraProgress camera_phase real
  | ToggleConstellation
  | PendingLinkEffect

fun apply_event :: "app_event \<Rightarrow> app_state \<Rightarrow> app_state" where
  "apply_event (ClickSection i) st = handleClickSection i st"
| "apply_event Back st = handleBack st"
| "apply_event BackToSection st = handleBackToSection st"
| "apply_event (ClickSubSphere s l) st = handleClickSubSphere s l st"
| "apply_event (CameraProgress ph pr) st = handleCameraProgress ph pr st"
| "apply_event ToggleConstellation st = handleToggleConstellation st"
| "apply_event PendingLinkEffect st = pending_link_effect st"

fun valid_event :: "app_event \<Rightarrow> bool" where
  "valid_event (ClickSubSphere s l) = link_of s l"
| "valid_event _ = True"

inductive reachable :: "app_state \<Rightarrow> bool" where
  reachable_init: "reachable initial_app"
| reachable_step: "reachable st \<Longrightarrow> valid_event e \<Longrightarrow> reachable (apply_event e st)"

text \<open>A queued link belongs to the active section.\<close>

definition pending_owned :: "app_state \<Rightarrow> bool" where
  "pending_owned st =
     (case pendingLinkRef st of
        None \<Rightarrow> True
      | Some l \<Rightarrow> (case activeSection st of None \<Rightarrow> False | Some s \<Rightarrow> link_of s l))"

text \<open>A sequence of such events, and the events that queue or open a link.\<close>

definition run :: "app_event list \<Rightarrow> app_state \<Rightarrow> app_state" where
  "run es st = foldl (\<lambda>s e. apply_event e s) st es"

fun is_moon_click :: "app_event \<Rightarrow> bool" where
  "is_moon_click (ClickSubSphere s l) = True"
| "is_moon_click _ = False"

section \<open>Scene3D: camera, animation record and refs\<close>

text \<open>
  The camera as far as the animator uses it: its position, its up vector and the point
  last passed to \<^verbatim>\<open>camera.lookAt\<close> (\<open>lookTarget\<close>).
\<close>

record camera =
  position :: vec3
  up :: vec3
  lookTarget :: vec3

text \<open>
  \<^verbatim>\<open>cameraAnimRef.current\<close>. Its vector fields always hold \<^verbatim>\<open>Vector3\<close> objects
  (they start as \<^verbatim>\<open>new THREE.Vector3()\<close> and are only ever assigned clones), and an
  object is truthy, so the test \<^verbatim>\<open>anim.currentLookAt ? ... : ...\<close> always takes its
  first branch.
\<close>

record camera_anim =
  active :: bool
  phase :: camera_phase
  startPos :: vec3
  endPos :: vec3
  startLookAt :: vec3
  endLookAt :: vec3
  currentLookAt :: vec3
  progress :: real
  duration :: real
  targetSectionIndex :: int
  targetLinkIndex :: int

text \<open>
  The refs of \<^verbatim>\<open>Scene3D\<close>. \<^verbatim>\<open>rendererRef\<close>, \<^verbatim>\<open>sceneRef\<close> and
  \<^verbatim>\<open>cameraRef\<close> are set together by the init effect, so \<open>cameraRef = None\<close>
  stands for a render surface that was not available. Rotation pairs are \<open>(x, y)\<close>:
  elevation and azimuth.
\<close>

record scene =
  cameraRef :: "camera option"
  cameraAnimRef :: camera_anim
  prevSectionRef :: "string option"
  prevLinkRef :: "string option"
  mountedRef :: bool
  isDraggingRef :: bool
  hasDraggedRef :: bool
  lastMouseRef :: "real \<times> real"
  mouseDownPosRef :: "real \<times> real"
  rotationRef :: "real \<times> real"
  targetRotationRef :: "real \<times> real"
  autoRotateRef :: real
  zoomRef :: real
  targetZoomRef :: real
  pinchStartRef :: "real option"

definition easeInOutCubic :: "real \<Rightarrow> real" where
  "easeInOutCubic t = (if t < 0.5 then 4 * t * t * t else 1 - (- 2 * t + 2) ^ 3 / 2)"

definition homePosition :: "real \<times> real \<Rightarrow> real \<Rightarrow> vec3" where
  "homePosition rot r =
     (r * cos (fst rot) * sin (snd rot), r * sin (fst rot), r * cos (fst rot) * cos (snd rot))"

subsection \<open>The camera fly trigger effect\<close>

text \<open>
  The effect with dependencies \<^verbatim>\<open>[activeSection, activeLink]\<close>. It returns at once
  without a camera, records the props on the initial mount, and otherwise overwrites
  the animation record according to the navigation level.
\<close>

definition camera_fly_trigger :: "string option \<Rightarrow> string option \<Rightarrow> scene \<Rightarrow> scene" where
  "camera_fly_trigger activeSec activeLnk sc =
     (case cameraRef sc of
        None \<Rightarrow> sc
      | Some cam \<Rightarrow>
          if \<not> mountedRef sc
          then sc\<lparr>mountedRef := True, prevSectionRef := activeSec, prevLinkRef := activeLnk\<rparr>
          else
           (let anim = cameraAnimRef sc;
                anim' =
                 (if truthy activeLnk \<and> truthy activeSec then
                    (let sIdx = sectionIndexOf activeSec;
                         lIdx = linkIndexOf activeSec activeLnk
                     in if 0 \<le> sIdx \<and> 0 \<le> lIdx
                        then anim\<lparr>active := True, phase := FlyToSub,
                               startPos := position cam,
                               startLookAt := currentLookAt anim,
                               targetSectionIndex := sIdx, targetLinkIndex := lIdx,
                               progress := 0, duration := 1.8\<rparr>
                        else anim)
                  else if truthy activeSec \<and> \<not> truthy activeLnk then
                    anim\<lparr>active := True, phase := FlyToParent,
                         startPos := position cam,
                         startLookAt := currentLookAt anim,
                         targetSectionIndex := sectionIndexOf activeSec,
                         targetLinkIndex := - 1,
                         progress := 0,
                         duration := (if truthy (prevLinkRef sc) then 1.5 else 2.5)\<rparr>
                  else if \<not> truthy activeSec \<and> \<not> truthy activeLnk \<and> truthy (prevSectionRef sc) then
                    anim\<lparr>active := True, phase := FlyHome,
                         startPos := position cam,
                         endPos := homePosition (rotationRef sc) (zoomRef sc),
                         startLookAt := currentLookAt anim,
                         endLookAt := (0, 0, 0),
                         targetSectionIndex := - 1, targetLinkIndex := - 1,
                         progress := 0, duration := 2\<rparr>
                  else anim)
            in sc\<lparr>cameraAnimRef := anim', prevSectionRef := activeSec, prevLinkRef := activeLnk\<rparr>))"

subsection \<open>The camera part of the render loop\<close>

text \<open>
  \<^verbatim>\<open>animate(time, delta)\<close> from its start to the camera phase report. The positions
  of the planets and moons, written later in the same frame by the scene updater, are
  read here as the previous frame left them: they are the frame's environment. Reading
  \<^verbatim>\<open>.position\<close> of an array element that does not exist throws a
  \<^verbatim>\<open>TypeError\<close>; the state at a throw is not tracked.
\<close>

record frame_env =
  spheres :: "vec3 list"
  subSpheres :: "vec3 list list"

datatype js_error = TypeError

definition js_index :: "'a list \<Rightarrow> int \<Rightarrow> 'a option" where
  "js_index xs i = (if 0 \<le> i \<and> i < int (length xs) then Some (xs ! nat i) else None)"

definition parentView :: "vec3 \<Rightarrow> real \<Rightarrow> vec3" where
  "parentView pos lift = vadd (vadd pos (multiplyScalar (normalize pos) 0.6)) (0, lift, 0)"

definition subView :: "vec3 \<Rightarrow> real \<Rightarrow> vec3" where
  "subView subPos lift = vadd (vadd subPos (multiplyScalar (normalize subPos) 0.15)) (0, lift, 0)"

definition animate_rotation :: "real \<Rightarrow> string option \<Rightarrow> scene \<Rightarrow> scene" where
  "animate_rotation delta activeSec sc =
     (let auto' =
            (if \<not> isDraggingRef sc \<and> \<not> active (cameraAnimRef sc) \<and> \<not> truthy activeSec
             then autoRotateRef sc + delta * 0.15
             else if isDraggingRef sc then snd (targetRotationRef sc)
             else autoRotateRef sc);
          target' =
            (if \<not> isDraggingRef sc \<and> \<not> active (cameraAnimRef sc) \<and> \<not> truthy activeSec
             then (fst (targetRotationRef sc), auto')
             else targetRotationRef sc);
          rot = rotationRef sc
      in sc\<lparr>autoRotateRef := auto', targetRotationRef := target',
            rotationRef := (fst rot + (fst target' - fst rot) * 0.05,
                            snd rot + (snd target' - snd rot) * 0.05),
            zoomRef := zoomRef sc + (targetZoomRef sc - zoomRef sc) * 0.05\<rparr>)"

text \<open>The end pose of the running flight: camera end position and look-at end point.\<close>

definition flight_target :: "frame_env \<Rightarrow> camera_anim \<Rightarrow> js_error + vec3 \<times> vec3" where
  "flight_target env anim =
     (if phase anim = FlyToParent \<and> 0 \<le> targetSectionIndex anim then
        (case js_index (spheres env) (targetSectionIndex anim) of
           None \<Rightarrow> Inl TypeError
         | Some pos \<Rightarrow> Inr (parentView pos 0.15, pos))
      else if phase anim = FlyToSub \<and> 0 \<le> targetSectionIndex anim \<and> 0 \<le> targetLinkIndex anim then
        (case js_index (subSpheres env) (targetSectionIndex anim) of
           None \<Rightarrow> Inl TypeError
         | Some subs \<Rightarrow>
             (case js_index subs (targetLinkIndex anim) of
                None \<Rightarrow> Inl TypeError
              | Some subPos \<Rightarrow> Inr (subView subPos 0.04, subPos)))
      else Inr (endPos anim, endLookAt anim))"

definition flight_frame ::
  "real \<Rightarrow> frame_env \<Rightarrow> camera \<Rightarrow> scene \<Rightarrow> js_error + scene \<times> (camera_phase \<times> real) option" where
  "flight_frame delta env cam sc =
     (let anim0 = cameraAnimRef sc;
          p = progress anim0 + delta / duration anim0;
          anim1 = (if 1 \<le> p then anim0\<lparr>progress := 1, active := False\<rparr>
                   else anim0\<lparr>progress := p\<rparr>);
          t = easeInOutCubic (progress anim1)
      in case flight_target env anim1 of
           Inl e \<Rightarrow> Inl e
         | Inr (endP, lookEnd) \<Rightarrow>
             (let lookAt = lerpVectors (startLookAt anim1) lookEnd t
              in Inr (sc\<lparr>cameraRef :=
                             Some (cam\<lparr>position := lerpVectors (startPos anim1) endP t,
                                       lookTarget := lookAt\<rparr>),
                          cameraAnimRef := anim1\<lparr>currentLookAt := lookAt\<rparr>\<rparr>,
                      Some (phase anim1, progress anim1))))"

definition home_orbit :: "camera \<Rightarrow> scene \<Rightarrow> scene \<times> (camera_phase \<times> real) option" where
  "home_orbit cam sc =
     (sc\<lparr>cameraRef :=
           Some (cam\<lparr>position := homePosition (rotationRef sc) (zoomRef sc),
                     up := (0, (if 0 \<le> cos (fst (rotationRef sc)) then 1 else - 1), 0),
                     lookTarget := (0, 0, 0)\<rparr>)\<rparr>,
      Some (Home, 0))"

definition parked_at_parent ::
  "real \<Rightarrow> string option \<Rightarrow> frame_env \<Rightarrow> camera \<Rightarrow> scene
     \<Rightarrow> js_error + scene \<times> (camera_phase \<times> real) option" where
  "parked_at_parent time activeSec env cam sc =
     (let idx = sectionIndexOf activeSec
      in if 0 \<le> idx then
           (case js_index (spheres env) idx of
              None \<Rightarrow> Inl TypeError
            | Some pos \<Rightarrow>
                Inr (sc\<lparr>cameraRef :=
                          Some (cam\<lparr>position :=
                                      lerpVectors (position cam)
                                        (parentView pos (0.15 + sin (time * 0.4) * 0.01)) 0.03,
                                    lookTarget := pos\<rparr>)\<rparr>,
                     Some (ParkedAtParent, 0)))
         else Inr (sc, Some (ParkedAtParent, 0)))"

definition parked_at_sub ::
  "real \<Rightarrow> string option \<Rightarrow> string option \<Rightarrow> frame_env \<Rightarrow> camera \<Rightarrow> scene
     \<Rightarrow> js_error + scene \<times> (camera_phase \<times> real) option" where
  "parked_at_sub time activeSec activeLnk env cam sc =
     (let sIdx = sectionIndexOf activeSec;
          lIdx = linkIndexOf activeSec activeLnk
      in if 0 \<le> sIdx \<and> 0 \<le> lIdx then
           (case js_index (subSpheres env) sIdx of
              None \<Rightarrow> Inl TypeError
            | Some subs \<Rightarrow>
                (case js_index subs lIdx of
                   None \<Rightarrow> Inl TypeError
                 | Some subPos \<Rightarrow>
                     Inr (sc\<lparr>cameraRef :=
                               Some (cam\<lparr>position :=
                                           lerpVectors (position cam)
                                             (subView subPos (0.04 + sin (time * 0.3) * 0.005)) 0.03,
                                         lookTarget := subPos\<rparr>)\<rparr>,
                          Some (ParkedAtSub, 0))))
         else Inr (sc, Some (ParkedAtSub, 0)))"

definition animate ::
  "real \<Rightarrow> real \<Rightarrow> string option \<Rightarrow> string option \<Rightarrow> frame_env \<Rightarrow> scene
     \<Rightarrow> js_error + scene \<times> (camera_phase \<times> real) option" where
  "animate time delta activeSec activeLnk env sc =
     (case cameraRef sc of
        None \<Rightarrow> Inr (sc, None)
      | Some cam \<Rightarrow>
          if spheres env = [] \<or> subSpheres env = [] then Inr (sc, None)
          else
           (let sc1 = animate_rotation delta activeSec sc
            in if active (cameraAnimRef sc1) then flight_frame delta env cam sc1
               else if \<not> truthy activeSec then Inr (home_orbit cam sc1)
               else if truthy activeSec \<and> \<not> truthy activeLnk
               then parked_at_parent time activeSec env cam sc1
               else if truthy activeLnk
               then parked_at_sub time activeSec activeLnk env cam sc1
               else Inr (sc1, None)))"

section \<open>Scene3D: input router\<close>

text \<open>
  The listeners of the controls effect. The effect re-registers them whenever
  \<^verbatim>\<open>activeSection\<close> or \<^verbatim>\<open>activeLink\<close> changes, so each handler reads the props
  of the current render: they are arguments here. Pointer coordinates are
  \<^verbatim>\<open>(clientX, clientY)\<close>; a touch list is the list of its touches' coordinates.
  The hover branch of \<^verbatim>\<open>onMM\<close> only sets the cursor style and changes no ref.
\<close>

definition onMD :: "real \<times> real \<Rightarrow> scene \<Rightarrow> scene" where
  "onMD e sc =
     (if active (cameraAnimRef sc) then sc
      else sc\<lparr>isDraggingRef := True, hasDraggedRef := False,
              lastMouseRef := e, mouseDownPosRef := e\<rparr>)"

definition onMM :: "real \<times> real \<Rightarrow> string option \<Rightarrow> scene \<Rightarrow> scene" where
  "onMM e activeSec sc =
     (if \<not> isDraggingRef sc then sc
      else
       (let dx = fst e - fst (lastMouseRef sc);
            dy = snd e - snd (lastMouseRef sc);
            dragged =
              (if 5 < \<bar>fst e - fst (mouseDownPosRef sc)\<bar> \<or> 5 < \<bar>snd e - snd (mouseDownPosRef sc)\<bar>
               then True else hasDraggedRef sc);
            rot =
              (if \<not> truthy activeSec
               then (fst (targetRotationRef sc) + dy * 0.005, snd (targetRotationRef sc) + dx * 0.005)
               else targetRotationRef sc)
        in sc\<lparr>hasDraggedRef := dragged, targetRotationRef := rot, lastMouseRef := e\<rparr>))"

text \<open>
  The result of the ray cast at the click point, after walking up to the nearest
  ancestor tagged \<^verbatim>\<open>parent\<close> or \<^verbatim>\<open>sub\<close>: a planet with its index in
  \<^verbatim>\<open>spheresRef.current\<close>, or a moon with its section index, link index and current
  material opacity. \<open>None\<close> stands for no hit and for a hit without a tagged ancestor.
  The ray caster is a parameter \<open>pick\<close> from click coordinates to this result.
\<close>

datatype hit = HitParent int | HitSub int int real

text \<open>
  What \<^verbatim>\<open>handleClick\<close> does: \<open>Suppressed\<close> is the guard's early return (and a
  release that does not call it at all), \<open>NoTarget\<close> a ray cast without a node,
  \<open>NotActionable\<close> a node the current level does not accept; otherwise the callback
  that is invoked. \<open>ClickError\<close> is a \<^verbatim>\<open>TypeError\<close> from an index outside
  \<^verbatim>\<open>SECTIONS\<close>.
\<close>

datatype click_outcome =
  Suppressed | NoTarget | NotActionable
  | SectionClicked string | SubSphereClicked string string | ClickError

definition handleClick ::
  "(real \<times> real \<Rightarrow> hit option) \<Rightarrow> real \<times> real \<Rightarrow> string option \<Rightarrow> string option \<Rightarrow> scene
     \<Rightarrow> click_outcome" where
  "handleClick pick c activeSec activeLnk sc =
     (if hasDraggedRef sc \<or> active (cameraAnimRef sc) then Suppressed
      else
       (case pick c of
          None \<Rightarrow> NoTarget
        | Some (HitParent idx) \<Rightarrow>
            if \<not> truthy activeSec then
              (if 0 \<le> idx then
                 (case js_index SECTIONS idx of
                    None \<Rightarrow> ClickError
                  | Some s \<Rightarrow> SectionClicked (section_id s))
               else NotActionable)
            else NotActionable
        | Some (HitSub sectionIndex linkIndex opacity) \<Rightarrow>
            if truthy activeSec \<and> \<not> truthy activeLnk then
              (if 0.3 < opacity then
                 (case js_index SECTIONS sectionIndex of
                    None \<Rightarrow> ClickError
                  | Some s \<Rightarrow>
                      (case js_index (links s) linkIndex of
                         None \<Rightarrow> ClickError
                       | Some l \<Rightarrow> SubSphereClicked (section_id s) (link_id l)))
               else NotActionable)
            else NotActionable))"

definition onMU ::
  "(real \<times> real \<Rightarrow> hit option) \<Rightarrow> real \<times> real \<Rightarrow> string option \<Rightarrow> string option \<Rightarrow> scene
     \<Rightarrow> click_outcome \<times> scene" where
  "onMU pick e activeSec activeLnk sc =
     ((if \<not> hasDraggedRef sc then handleClick pick e activeSec activeLnk sc else Suppressed),
      sc\<lparr>isDraggingRef := False, hasDraggedRef := False\<rparr>)"

definition onWH :: "real \<Rightarrow> string option \<Rightarrow> scene \<Rightarrow> scene" where
  "onWH deltaY activeSec sc =
     (if active (cameraAnimRef sc) \<or> truthy activeSec then sc
      else sc\<lparr>targetZoomRef := max 2 (min 8 (targetZoomRef sc + deltaY * 0.003))\<rparr>)"

definition hypot :: "real \<Rightarrow> real \<Rightarrow> real" where
  "hypot a b = sqrt (a * a + b * b)"

definition touchDistance :: "(real \<times> real) list \<Rightarrow> real" where
  "touchDistance touches =
     hypot (fst (touches ! 0) - fst (touches ! 1)) (snd (touches ! 0) - snd (touches ! 1))"

definition onTS :: "(real \<times> real) list \<Rightarrow> scene \<Rightarrow> scene" where
  "onTS touches sc =
     (if active (cameraAnimRef sc) then sc
      else if length touches = 1 then
        sc\<lparr>isDraggingRef := True, hasDraggedRef := False,
           lastMouseRef := touches ! 0, mouseDownPosRef := touches ! 0\<rparr>
      else if length touches = 2 then
        sc\<lparr>pinchStartRef := Some (touchDistance touches)\<rparr>
      else sc)"

definition onTM :: "(real \<times> real) list \<Rightarrow> string option \<Rightarrow> scene \<Rightarrow> scene" where
  "onTM touches activeSec sc =
     (if length touches = 1 \<and> isDraggingRef sc then
        (let t = touches ! 0;
             dragged =
               (if 8 < \<bar>fst t - fst (mouseDownPosRef sc)\<bar> \<or> 8 < \<bar>snd t - snd (mouseDownPosRef sc)\<bar>
                then True else hasDraggedRef sc);
             dx = fst t - fst (lastMouseRef sc);
             dy = snd t - snd (lastMouseRef sc);
             rot =
               (if \<not> truthy activeSec
                then (fst (targetRotationRef sc) + dy * 0.005, snd (targetRotationRef sc) + dx * 0.005)
                else targetRotationRef sc)
         in sc\<lparr>hasDraggedRef := dragged, targetRotationRef := rot, lastMouseRef := t\<rparr>)
      else if length touches = 2 \<and> \<not> truthy activeSec then
        (case pinchStartRef sc of
           None \<Rightarrow> sc
         | Some start \<Rightarrow>
             (let dist = touchDistance touches
              in sc\<lparr>targetZoomRef := max 2 (min 8 (targetZoomRef sc + (start - dist) * 0.01)),
                    pinchStartRef := Some dist\<rparr>))
      else sc)"

definition onTE ::
  "(real \<times> real \<Rightarrow> hit option) \<Rightarrow> (real \<times> real) list \<Rightarrow> string option \<Rightarrow> string option \<Rightarrow> scene
     \<Rightarrow> click_outcome \<times> scene" where
  "onTE pick changedTouches activeSec activeLnk sc =
     ((if \<not> hasDraggedRef sc \<and> changedTouches \<noteq> []
       then handleClick pick (changedTouches ! 0) activeSec activeLnk sc
       else Suppressed),
      sc\<lparr>isDraggingRef := False, hasDraggedRef := False, pinchStartRef := None\<rparr>)"



section \<open>The two components together\<close>

text \<open>
  React's part, as far as the program relies on it. A handler's state updates are
  batched into one render. After a render, an effect runs when one of its dependencies
  differs from the previous render; the effects of \<^verbatim>\<open>Scene3D\<close> (the child) run
  before those of \<^verbatim>\<open>App\<close>. The pending-link effect may set \<^verbatim>\<open>activeLink\<close>, which
  gives a second render in which only the fly trigger's dependencies can have changed.
  \<open>commit old w\<close> runs the effects for the state of \<open>w\<close> after a render whose
  predecessor rendered \<open>old\<close>.
\<close>

record world =
  app :: app_state
  scene3d :: scene

definition commit :: "app_state \<Rightarrow> world \<Rightarrow> world" where
  "commit old w =
     (let a1 = app w;
          sc1 = (if activeSection a1 = activeSection old \<and> activeLink a1 = activeLink old
                 then scene3d w
                 else camera_fly_trigger (activeSection a1) (activeLink a1) (scene3d w));
          a2 = (if cameraPhase a1 = cameraPhase old \<and> activeSection a1 = activeSection old
                then a1 else pending_link_effect a1);
          sc2 = (if activeLink a2 = activeLink a1 then sc1
                 else camera_fly_trigger (activeSection a2) (activeLink a2) sc1)
      in \<lparr>app = a2, scene3d = sc2\<rparr>)"

definition user_event :: "(app_state \<Rightarrow> app_state) \<Rightarrow> world \<Rightarrow> world" where
  "user_event h w = commit (app w) (w\<lparr>app := h (app w)\<rparr>)"

definition dispatch_click :: "click_outcome \<Rightarrow> world \<Rightarrow> world" where
  "dispatch_click outcome w =
     (case outcome of
        SectionClicked i \<Rightarrow> user_event (handleClickSection i) w
      | SubSphereClicked s l \<Rightarrow> user_event (handleClickSubSphere s l) w
      | _ \<Rightarrow> w)"

definition mouse_up :: "(real \<times> real \<Rightarrow> hit option) \<Rightarrow> real \<times> real \<Rightarrow> world \<Rightarrow> world" where
  "mouse_up pick e w =
     (let r = onMU pick e (activeSection (app w)) (activeLink (app w)) (scene3d w)
      in dispatch_click (fst r) (w\<lparr>scene3d := snd r\<rparr>))"

text \<open>One animation frame: the render loop, then the phase report to \<^verbatim>\<open>App\<close>.\<close>

definition frame :: "real \<Rightarrow> real \<Rightarrow> frame_env \<Rightarrow> world \<Rightarrow> js_error + world" where
  "frame time delta env w =
     (case animate time delta (activeSection (app w)) (activeLink (app w)) env (scene3d w) of
        Inl e \<Rightarrow> Inl e
      | Inr (sc, None) \<Rightarrow> Inr (w\<lparr>scene3d := sc\<rparr>)
      | Inr (sc, Some (ph, pr)) \<Rightarrow>
          Inr (user_event (handleCameraProgress ph pr) (w\<lparr>scene3d := sc\<rparr>)))"

text \<open>
  The state after the first render: the init effect has created the camera at
  \<open>(0, 2, 4.5)\<close> looking at the origin, and the fly trigger has run once, on mount.
\<close>

definition initial_anim :: camera_anim where
  "initial_anim =
     \<lparr>active = False, phase = Idle, startPos = (0, 0, 0), endPos = (0, 0, 0),
      startLookAt = (0, 0, 0), endLookAt = (0, 0, 0), currentLookAt = (0, 0, 0),
      progress = 0, duration = 2.5, targetSectionIndex = - 1, targetLinkIndex = - 1\<rparr>"

definition initial_scene :: scene where
  "initial_scene =
     \<lparr>cameraRef = Some \<lparr>position = (0, 2, 4.5), up = (0, 1, 0), lookTarget = (0, 0, 0)\<rparr>,
      cameraAnimRef = initial_anim,
      prevSectionRef = None, prevLinkRef = None, mountedRef = False,
      isDraggingRef = False, hasDraggedRef = False,
      lastMouseRef = (0, 0), mouseDownPosRef = (0, 0),
      rotationRef = (0.3, 0), targetRotationRef = (0.3, 0),
      autoRotateRef = 0, zoomRef = 4.5, targetZoomRef = 4.5, pinchStartRef = None\<rparr>"

definition initial_world :: world where
  "initial_world = \<lparr>app = initial_app, scene3d = camera_fly_trigger None None initial_scene\<rparr>"

section \<open>Event sequences\<close>

text \<open>
  What the browser can deliver to the page, one event at a time: commands from the
  navigation bar and the overlays, pointer, wheel and touch events on the canvas, and
  animation frames. A frame that throws ends the run. The pending-link effect is not a
  command: it runs only where \<open>commit\<close> schedules it.
\<close>

datatype action =
  Command app_event
  | MouseDown "real \<times> real"
  | MouseMove "real \<times> real"
  | MouseUp "real \<times> real \<Rightarrow> hit option" "real \<times> real"
  | Wheel real
  | TouchStart "(real \<times> real) list"
  | TouchMove "(real \<times> real) list"
  | TouchEnd "real \<times> real \<Rightarrow> hit option" "(real \<times> real) list"
  | Frame real real frame_env

fun perform :: "action \<Rightarrow> world \<Rightarrow> js_error + world" where
  "perform (Command PendingLinkEffect) w = Inr w"
| "perform (Command e) w = Inr (user_event (apply_event e) w)"
| "perform (MouseDown e) w = Inr (w\<lparr>scene3d := onMD e (scene3d w)\<rparr>)"
| "perform (MouseMove e) w = Inr (w\<lparr>scene3d := onMM e (activeSection (app w)) (scene3d w)\<rparr>)"
| "perform (MouseUp pick e) w = Inr (mouse_up pick e w)"
| "perform (Wheel deltaY) w = Inr (w\<lparr>scene3d := onWH deltaY (activeSection (app w)) (scene3d w)\<rparr>)"
| "perform (TouchStart touches) w = Inr (w\<lparr>scene3d := onTS touches (scene3d w)\<rparr>)"
| "perform (TouchMove touches) w =
     Inr (w\<lparr>scene3d := onTM touches (activeSection (app w)) (scene3d w)\<rparr>)"
| "perform (TouchEnd pick changed) w =
     (let r = onTE pick changed (activeSection (app w)) (activeLink (app w)) (scene3d w)
      in Inr (dispatch_click (fst r) (w\<lparr>scene3d := snd r\<rparr>)))"
| "perform (Frame time delta env) w = frame time delta env w"

fun perform_all :: "action list \<Rightarrow> world \<Rightarrow> js_error + world" where
  "perform_all [] w = Inr w"
| "perform_all (a # as) w =
     (case perform a w of Inl e \<Rightarrow> Inl e | Inr w' \<Rightarrow> perform_all as w')"

text \<open>What a run shows of its final state, \<open>None\<close> when a frame threw.\<close>

definition observe :: "(world \<Rightarrow> 'a) \<Rightarrow> js_error + world \<Rightarrow> 'a option" where
  "observe f r = (case r of Inl e \<Rightarrow> None | Inr w \<Rightarrow> Some (f w))"

text \<open>
  A scene graph for concrete runs: five planets on the coordinate axes, each with its
  three moons at the same place. The ray caster of a run is constant: every click lands
  on the given node.
\<close>

definition example_env :: frame_env where
  "example_env =
     \<lparr>spheres = [(1, 0, 0), (0, 1, 0), (0, 0, 1), (- 1, 0, 0), (0, - 1, 0)],
      subSpheres =
        [[(1, 0, 0), (1, 0, 0), (1, 0, 0)], [(0, 1, 0), (0, 1, 0), (0, 1, 0)],
         [(0, 0, 1), (0, 0, 1), (0, 0, 1)], [(- 1, 0, 0), (- 1, 0, 0), (- 1, 0, 0)],
         [(0, - 1, 0), (0, - 1, 0), (0, - 1, 0)]]\<rparr>"

text \<open>
  The same scene graph a little later: the planet of \<open>art\<close> and its moons have moved on
  along their orbit.
\<close>

definition example_env_later :: frame_env where
  "example_env_later =
     \<lparr>spheres = [(4 / 5, 0, 3 / 5), (0, 1, 0), (0, 0, 1), (- 1, 0, 0), (0, - 1, 0)],
      subSpheres =
        [[(4 / 5, 0, 3 / 5), (4 / 5, 0, 3 / 5), (4 / 5, 0, 3 / 5)],
         [(0, 1, 0), (0, 1, 0), (0, 1, 0)],
         [(0, 0, 1), (0, 0, 1), (0, 0, 1)], [(- 1, 0, 0), (- 1, 0, 0), (- 1, 0, 0)],
         [(0, - 1, 0), (0, - 1, 0), (0, - 1, 0)]]\<rparr>"

definition pick_node :: "hit \<Rightarrow> real \<times> real \<Rightarrow> hit option" where
  "pick_node h c = Some h"

text \<open>
  What is read off a state: the navigation state with the queue and the stored camera
  phase; the running flight; the zoom target; the press being tracked; and what a
  release at a point would do.
\<close>

definition nav_view ::
  "world \<Rightarrow> string option \<times> string option \<times> string option \<times> camera_phase" where
  "nav_view w =
     (activeSection (app w), activeLink (app w), pendingLinkRef (app w), cameraPhase (app w))"

definition flight_view :: "world \<Rightarrow> bool \<times> camera_phase \<times> real \<times> int" where
  "flight_view w =
     (active (cameraAnimRef (scene3d w)), phase (cameraAnimRef (scene3d w)),
      progress (cameraAnimRef (scene3d w)), targetSectionIndex (cameraAnimRef (scene3d w)))"

definition zoom_view :: "world \<Rightarrow> real" where
  "zoom_view w = targetZoomRef (scene3d w)"

definition zoom_ok :: "world \<Rightarrow> bool" where
  "zoom_ok w = (2 \<le> zoom_view w \<and> zoom_view w \<le> 8)"

definition press_view :: "world \<Rightarrow> bool \<times> bool \<times> real \<times> real" where
  "press_view w =
     (isDraggingRef (scene3d w), hasDraggedRef (scene3d w), mouseDownPosRef (scene3d w))"

definition release_view ::
  "(real \<times> real \<Rightarrow> hit option) \<Rightarrow> real \<times> real \<Rightarrow> world \<Rightarrow> click_outcome" where
  "release_view pick e w =
     fst (onMU pick e (activeSection (app w)) (activeLink (app w)) (scene3d w))"

text \<open>
  The running flight with its duration; where the camera looks, next to the look-at
  stored in the animation record and the start look-at of the flight; and whether the
  start position of the flight is the camera's position.
\<close>

definition duration_view :: "world \<Rightarrow> bool \<times> camera_phase \<times> real \<times> real" where
  "duration_view w =
     (active (cameraAnimRef (scene3d w)), phase (cameraAnimRef (scene3d w)),
      progress (cameraAnimRef (scene3d w)), duration (cameraAnimRef (scene3d w)))"

definition look_view :: "world \<Rightarrow> vec3 option \<times> vec3 \<times> vec3" where
  "look_view w =
     (map_option lookTarget (cameraRef (scene3d w)),
      currentLookAt (cameraAnimRef (scene3d w)), startLookAt (cameraAnimRef (scene3d w)))"

definition start_at_camera :: "world \<Rightarrow> bool" where
  "start_at_camera w =
     (map_option position (cameraRef (scene3d w)) = Some (startPos (cameraAnimRef (scene3d w))))"

text \<open>
  Runs from the mounted page. \<open>enter_art_and_park\<close>: the visitor enters \<open>art\<close>, one
  long frame completes the flight, the next frame finds the camera parked.
  \<open>queue_gallery_and_press\<close>: \<open>gallery\<close> is chosen from the navigation bar during the
  flight to \<open>art\<close>, the flight completes, the mouse goes down on the canvas, and the next
  frame finds the camera parked. \<open>pinch_then_back\<close>: parked at \<open>art\<close>, two fingers go
  down 200 px apart, then "back" is pressed.
\<close>

definition enter_art_and_park :: "action list" where
  "enter_art_and_park =
     [Command (ClickSection ''art''), Frame 3 3 example_env,
      Frame (181 / 60) (1 / 60) example_env]"

definition queue_gallery_and_press :: "action list" where
  "queue_gallery_and_press =
     [Command (ClickSection ''art''), Frame 1 1 example_env,
      Command (ClickSubSphere ''art'' ''gallery''), Frame 3 2 example_env,
      MouseDown (400, 300), Frame (181 / 60) (1 / 60) example_env]"

definition moon_from_home :: "action list" where
  "moon_from_home =
     [Command (ClickSubSphere ''yoga'' ''classes''), Frame 1 1 example_env,
      Frame 3 2 example_env]"

definition pinch_then_back :: "action list" where
  "pinch_then_back =
     enter_art_and_park
     @ [TouchStart [(100, 100)], TouchStart [(100, 100), (300, 100)], Command Back]"

text \<open>
  \<open>enter_dev_and_park\<close>: as \<open>enter_art_and_park\<close>, for \<open>dev\<close>.
  \<open>park_at_moving_art\<close>: the visitor enters \<open>art\<close> and the camera parks; a minute
  later a frame finds the planet further along its orbit.
\<close>

definition enter_dev_and_park :: "action list" where
  "enter_dev_and_park =
     [Command (ClickSection ''dev''), Frame 3 3 example_env,
      Frame (181 / 60) (1 / 60) example_env]"

definition park_at_moving_art :: "action list" where
  "park_at_moving_art = enter_art_and_park @ [Frame 60 (1 / 60) example_env_later]"

text \<open>
  Scenes of a concrete visit: the scene after mount, and after the fly trigger has run
  for entering \<open>dev\<close>.
\<close>

definition initial_camera :: camera where
  "initial_camera = \<lparr>position = (0, 2, 4.5), up = (0, 1, 0), lookTarget = (0, 0, 0)\<rparr>"

definition sc_home :: scene where
  "sc_home = scene3d initial_world"

definition sc_dev :: scene where
  "sc_dev = camera_fly_trigger (Some ''dev'') None sc_home"

text \<open>
  The scene one second into the flight to \<open>art\<close> that starts from the mounted scene,
  with the planets of \<open>example_env\<close>.
\<close>

definition sc_art_flying :: scene where
  "sc_art_flying = camera_fly_trigger (Some ''art'') None sc_home"

definition sc_art_midflight :: scene where
  "sc_art_midflight =
     \<lparr>cameraRef =
        Some \<lparr>position = (256 / 625, 954 / 625, 837 / 250), up = (0, 1, 0),
              lookTarget = (32 / 125, 0, 0)\<rparr>,
      cameraAnimRef =
        \<lparr>active = True, phase = FlyToParent, startPos = (0, 2, 9 / 2), endPos = (0, 0, 0),
         startLookAt = (0, 0, 0), endLookAt = (0, 0, 0), currentLookAt = (32 / 125, 0, 0),
         progress = 2 / 5, duration = 5 / 2, targetSectionIndex = 0, targetLinkIndex = - 1\<rparr>,
      prevSectionRef = Some ''art'', prevLinkRef = None, mountedRef = True,
      isDraggingRef = False, hasDraggedRef = False, lastMouseRef = (0, 0),
      mouseDownPosRef = (0, 0), rotationRef = (3 / 10, 0), targetRotationRef = (3 / 10, 0),
      autoRotateRef = 0, zoomRef = 9 / 2, targetZoomRef = 9 / 2, pinchStartRef = None\<rparr>"

section \<open>Invariants of runs\<close>




text \<open>
  The camera exists, the mount has been recorded, and \<^verbatim>\<open>prevSectionRef\<close> and
  \<^verbatim>\<open>prevLinkRef\<close> hold the active section and link of the current render.
\<close>

definition refs_in_step :: "world \<Rightarrow> bool" where
  "refs_in_step w =
     (cameraRef (scene3d w) \<noteq> None \<and> mountedRef (scene3d w)
      \<and> prevSectionRef (scene3d w) = activeSection (app w)
      \<and> prevLinkRef (scene3d w) = activeLink (app w))"

text \<open>
  A flight that has just been started, with a duration that fits its kind, where
  \<open>prevLink\<close> is the link that was active before.
\<close>

definition flight_by_table :: "string option \<Rightarrow> camera_anim \<Rightarrow> bool" where
  "flight_by_table prevLink a =
     (active a \<and> progress a = 0
      \<and> ((phase a = FlyToParent \<and> duration a = (if truthy prevLink then 1.5 else 2.5))
         \<or> (phase a = FlyToSub \<and> duration a = 1.8)
         \<or> (phase a = FlyHome \<and> duration a = 2)))"

section \<open>Properties of the orbit curve lookup\<close>

lemma js_rem_one_idem: "js_rem (js_rem p 1) 1 = js_rem p 1"
  by (simp add: js_rem_def js_trunc_def) linarith

lemma wrapProgress_frac: "wrapProgress p = frac p"
  by (simp add: wrapProgress_def js_rem_def js_trunc_def frac_def) linarith

text \<open>
  Claim C6. For every progress value \<open>p\<close>, negative ones included, the lookup at
  \<open>p mod 1\<close> returns the position of the lookup at \<open>p\<close>: the argument is wrapped into
  \<open>[0, 1)\<close> before the curve is evaluated, so the position has period 1. \<open>p mod 1\<close> is
  taken both ways: as JavaScript's remainder \<open>js_rem p 1\<close> and as the fractional part
  \<open>frac p\<close>.
\<close>

theorem getTorusPosition_periodic:
  "fst (getTorusPosition generated cache (js_rem p 1)) = fst (getTorusPosition generated cache p)
   \<and> fst (getTorusPosition generated cache (frac p)) = fst (getTorusPosition generated cache p)
   \<and> fst (getTorusPosition generated cache (p + 1)) = fst (getTorusPosition generated cache p)
   \<and> fst (getTorusPosition generated cache p)
       = (case cache of None \<Rightarrow> generated | Some c \<Rightarrow> c) (frac p)
   \<and> 0 \<le> frac p \<and> frac p < 1"
proof -
  have a: "wrapProgress (js_rem p 1) = wrapProgress p"
    by (simp add: wrapProgress_def js_rem_one_idem)
  have b: "wrapProgress (frac p) = wrapProgress p"
    by (simp add: wrapProgress_frac)
  have c: "wrapProgress (p + 1) = wrapProgress p"
    by (simp add: wrapProgress_frac frac_def)
  show ?thesis
    using a b c by (simp add: getTorusPosition_def Let_def wrapProgress_frac frac_lt_1)
qed

section \<open>Properties of the section data\<close>

lemma findIndex_range: "- 1 \<le> findIndex P xs \<and> findIndex P xs < int (length xs)"
  by (induction xs) auto

lemma findIndex_found:
  "0 \<le> findIndex P xs \<Longrightarrow>
   P (xs ! nat (findIndex P xs)) \<and> (\<forall>j < nat (findIndex P xs). \<not> P (xs ! j))"
proof (induction xs)
  case Nil
  then show ?case by simp
next
  case (Cons x xs)
  show ?case
  proof (cases "P x")
    case True
    then show ?thesis by simp
  next
    case False
    with Cons.prems have r: "0 \<le> findIndex P xs" by (simp split: if_splits)
    then have n: "nat (findIndex P xs + 1) = Suc (nat (findIndex P xs))" by simp
    from Cons.IH [OF r] False r show ?thesis
      by (auto simp: n nth_Cons split: nat.splits)
  qed
qed

lemma findIndex_none: "(findIndex P xs < 0) = (\<forall>x\<in>set xs. \<not> P x)"
  by (induction xs) (use findIndex_range in auto)

text \<open>
  \<open>findIndex\<close> returns \<open>-1\<close> exactly when no element satisfies the predicate, and
  otherwise the index, within the list, of the first element that does. So the look-up
  \<^verbatim>\<open>SECTIONS[sIdx]\<close> behind a test \<^verbatim>\<open>sIdx >= 0\<close> always finds a section.
\<close>

theorem findIndex_first_match:
  "- 1 \<le> findIndex P xs \<and> findIndex P xs < int (length xs)
   \<and> ((findIndex P xs < 0) = (\<forall>x\<in>set xs. \<not> P x))
   \<and> (0 \<le> findIndex P xs \<longrightarrow>
        P (xs ! nat (findIndex P xs)) \<and> (\<forall>j < nat (findIndex P xs). \<not> P (xs ! j)))"
  using findIndex_range [of P xs] findIndex_none [of P xs] findIndex_found [of P xs]
  by blast

theorem findIndex_first_match_witness:
  "findIndex (\<lambda>s. section_id s = ''yoga'') SECTIONS = 2
   \<and> section_id (SECTIONS ! 2) = ''yoga''
   \<and> findIndex (\<lambda>s. section_id s = ''bogus'') SECTIONS = - 1"
  using findIndex_first_match [of "\<lambda>s. section_id s = ''yoga''" SECTIONS]
  by (simp add: SECTIONS_def)

lemma sectionIndexOf_range: "- 1 \<le> sectionIndexOf sec \<and> sectionIndexOf sec < int (length SECTIONS)"
  by (simp add: sectionIndexOf_def findIndex_range)


lemma linkIndexOf_known: "0 \<le> linkIndexOf sec lnk \<Longrightarrow> 0 \<le> sectionIndexOf sec"
  by (simp add: linkIndexOf_def split: if_splits)


lemma section_ids_nonempty: "\<forall>s\<in>set SECTIONS. section_id s \<noteq> []"
  by (simp add: SECTIONS_def)

lemma link_ids_nonempty: "\<forall>sec\<in>set SECTIONS. \<forall>l\<in>set (links sec). link_id l \<noteq> []"
  by (simp add: SECTIONS_def)

lemma known_section_nonempty: "0 \<le> sectionIndexOf (Some s) \<Longrightarrow> s \<noteq> []"
proof
  assume a: "0 \<le> sectionIndexOf (Some s)" and "s = []"
  have "sectionIndexOf (Some []) = - 1" by (simp add: sectionIndexOf_def SECTIONS_def)
  then show False using a \<open>s = []\<close> by simp
qed

lemma known_link_nonempty:
  assumes "0 \<le> linkIndexOf (Some s) (Some l)"
  shows "l \<noteq> [] \<and> s \<noteq> []"
proof -
  have i: "0 \<le> sectionIndexOf (Some s)" using assms by (rule linkIndexOf_known)
  define sec where "sec = SECTIONS ! nat (sectionIndexOf (Some s))"
  have m: "sec \<in> set SECTIONS"
    using i sectionIndexOf_range [of "Some s"] by (simp add: sec_def)
  have "0 \<le> findIndex (\<lambda>k. Some (link_id k) = Some l) (links sec)"
    using assms i by (simp add: linkIndexOf_def sec_def)
  then have "\<not> (\<forall>x\<in>set (links sec). \<not> Some (link_id x) = Some l)"
    using findIndex_none [of "\<lambda>k. Some (link_id k) = Some l" "links sec"] by linarith
  then obtain x where "x \<in> set (links sec)" "link_id x = l" by auto
  then have "l \<noteq> []" using link_ids_nonempty m by blast
  then show ?thesis using known_section_nonempty [OF i] by simp
qed

lemma link_of_nonempty: "link_of s l \<Longrightarrow> s \<noteq> [] \<and> l \<noteq> []"
proof -
  assume a: "link_of s l"
  then obtain sec where f: "find (\<lambda>sec. section_id sec = s) SECTIONS = Some sec"
    and l: "l \<in> set (map link_id (links sec))"
    by (auto simp: link_of_def split: option.splits)
  from f have m: "sec \<in> set SECTIONS" and i: "section_id sec = s"
    by (auto simp: find_Some_iff)
  from l obtain k where "k \<in> set (links sec)" "link_id k = l" by auto
  then have "l \<noteq> []" using link_ids_nonempty m by auto
  then show ?thesis using section_ids_nonempty m i by auto
qed

lemma truthy_given: "truthy x \<Longrightarrow> x \<noteq> None"
  by (cases x) simp_all

lemma untruthy_differs: "\<not> truthy x \<Longrightarrow> i \<noteq> [] \<Longrightarrow> x \<noteq> Some i"
  by (cases x) auto

lemma planet_click_from_home:
  assumes "handleClick pick c sec lnk sc = SectionClicked i"
  shows "\<not> truthy sec \<and> i \<noteq> []"
proof -
  from assms obtain idx s where
    n: "\<not> truthy sec" and j: "js_index SECTIONS idx = Some s" and i: "i = section_id s"
    by (auto simp: handleClick_def split: if_splits option.splits hit.splits)
  from j have "s \<in> set SECTIONS" by (auto simp: js_index_def split: if_splits)
  then show ?thesis using n i section_ids_nonempty by auto
qed

section \<open>Evaluating concrete runs\<close>

lemmas handler_defs =
  handleClickSection_def handleBack_def handleBackToSection_def handleClickSubSphere_def
  handleCameraProgress_def handleToggleConstellation_def pending_link_effect_def

lemma apply_event_fun:
  "apply_event (ClickSection i) = handleClickSection i"
  "apply_event Back = handleBack"
  "apply_event BackToSection = handleBackToSection"
  "apply_event (ClickSubSphere s l) = handleClickSubSphere s l"
  by (rule ext, simp)+

lemma example_indices:
  "sectionIndexOf (Some ''art'') = 0"
  "sectionIndexOf (Some ''dev'') = 1"
  "linkIndexOf (Some ''dev'') (Some ''github'') = 1"
  "linkIndexOf (Some ''art'') (Some ''gallery'') = 0"
  "sectionIndexOf (Some ''bogus'') = - 1"
  "linkIndexOf (Some ''dev'') (Some ''nope'') = - 1"
  "sectionIndexOf (Some ''yoga'') = 2"
  "linkIndexOf (Some ''yoga'') (Some ''classes'') = 0"
  by (simp_all add: sectionIndexOf_def linkIndexOf_def SECTIONS_def)

lemma hypot_zero: "hypot a 0 = \<bar>a\<bar>"
  by (simp add: hypot_def)

lemmas eval_defs =
  user_event_def commit_def Let_def handler_defs initial_world_def initial_app_def
  initial_scene_def initial_anim_def camera_fly_trigger_def frame_def animate_def
  example_env_def animate_rotation_def flight_frame_def flight_target_def js_index_def
  parentView_def subView_def normalize_def easeInOutCubic_def parked_at_parent_def
  parked_at_sub_def home_orbit_def mouse_up_def onMU_def onMD_def onMM_def handleClick_def
  dispatch_click_def pick_node_def observe_def onTS_def onTM_def onTE_def onWH_def
  touchDistance_def SECTIONS_def nav_view_def flight_view_def zoom_view_def press_view_def
  release_view_def enter_art_and_park_def queue_gallery_and_press_def pinch_then_back_def
  moon_from_home_def enter_dev_and_park_def
  park_at_moving_art_def example_env_later_def look_view_def start_at_camera_def
  duration_view_def navSectionClick_def

lemma sc_home_eq:
  "sc_home =
     \<lparr>cameraRef = Some initial_camera, cameraAnimRef = initial_anim,
      prevSectionRef = None, prevLinkRef = None, mountedRef = True,
      isDraggingRef = False, hasDraggedRef = False, lastMouseRef = (0, 0),
      mouseDownPosRef = (0, 0), rotationRef = (0.3, 0), targetRotationRef = (0.3, 0),
      autoRotateRef = 0, zoomRef = 4.5, targetZoomRef = 4.5, pinchStartRef = None\<rparr>"
  by (simp add: sc_home_def initial_world_def initial_scene_def camera_fly_trigger_def
        initial_camera_def)

lemma art_midflight_frame:
  "flight_frame 1 example_env initial_camera sc_art_flying
     = Inr (sc_art_midflight, Some (FlyToParent, 2 / 5))"
  by (simp add: sc_art_flying_def sc_home_eq sc_art_midflight_def initial_camera_def
        initial_anim_def camera_fly_trigger_def example_env_def flight_frame_def
        flight_target_def js_index_def parentView_def normalize_def easeInOutCubic_def
        Let_def example_indices)


section \<open>Properties of the pending-link queue\<close>

lemma reachable_pending_owned: "reachable st \<Longrightarrow> pending_owned st"
proof (induction rule: reachable.induct)
  case reachable_init
  show ?case by (simp add: pending_owned_def initial_app_def)
next
  case (reachable_step st e)
  then show ?case
    by (cases e) (auto simp: pending_owned_def handler_defs split: option.splits if_splits)
qed

text \<open>
  The pending-link queue is one nullable ref, so it holds at most one entry. In every
  state the handlers and the effect can produce, a queued link belongs to the active
  section. There the pending-link effect does exactly this: when a link is queued and
  the stored camera phase is \<open>ParkedAtParent\<close>, it empties the queue and makes the
  queued link the active link; otherwise it changes nothing. Running it again changes
  nothing. The stored phase is the last report the App received, whichever section was
  active when the camera sent it.
\<close>

theorem queued_link_owned_and_consumed_on_stored_phase:
  assumes "reachable st"
  shows "pending_owned st
    \<and> pending_link_effect st
        = (if pendingLinkRef st \<noteq> None \<and> cameraPhase st = ParkedAtParent
           then st\<lparr>pendingLinkRef := None, activeLink := pendingLinkRef st\<rparr> else st)
    \<and> pending_link_effect (pending_link_effect st) = pending_link_effect st"
proof -
  have own: "pending_owned st" using assms by (rule reachable_pending_owned)
  have idem: "pending_link_effect (pending_link_effect st) = pending_link_effect st"
    by (simp add: pending_link_effect_def)
  have ex: "pending_link_effect st
        = (if pendingLinkRef st \<noteq> None \<and> cameraPhase st = ParkedAtParent
           then st\<lparr>pendingLinkRef := None, activeLink := pendingLinkRef st\<rparr> else st)"
  proof (cases "pendingLinkRef st")
    case None
    then show ?thesis by (simp add: pending_link_effect_def)
  next
    case (Some l)
    then obtain s where s: "activeSection st = Some s" and o: "link_of s l"
      using own by (auto simp: pending_owned_def split: option.splits)
    from link_of_nonempty [OF o] show ?thesis
      using Some s by (simp add: pending_link_effect_def)
  qed
  show ?thesis using own idem ex by (intro conjI)
qed

theorem queued_link_owned_and_consumed_on_stored_phase_witness:
  "reachable (run [ClickSubSphere ''yoga'' ''classes'', CameraProgress ParkedAtParent 0] initial_app)
   \<and> pending_owned (run [ClickSubSphere ''yoga'' ''classes'', CameraProgress ParkedAtParent 0] initial_app)
   \<and> activeLink (pending_link_effect
        (run [ClickSubSphere ''yoga'' ''classes'', CameraProgress ParkedAtParent 0] initial_app))
       = Some ''classes''
   \<and> pendingLinkRef (pending_link_effect
        (run [ClickSubSphere ''yoga'' ''classes'', CameraProgress ParkedAtParent 0] initial_app))
       = None"
proof -
  let ?st = "run [ClickSubSphere ''yoga'' ''classes'', CameraProgress ParkedAtParent 0] initial_app"
  have v: "valid_event (ClickSubSphere ''yoga'' ''classes'')"
    by (simp add: link_of_def SECTIONS_def)
  have "reachable (apply_event (ClickSubSphere ''yoga'' ''classes'') initial_app)"
    using reachable_init v by (rule reachable_step)
  then have "reachable (apply_event (CameraProgress ParkedAtParent 0)
                 (apply_event (ClickSubSphere ''yoga'' ''classes'') initial_app))"
    by (rule reachable_step) simp
  then have r: "reachable ?st" by (simp add: run_def)
  have p: "pendingLinkRef ?st = Some ''classes'' \<and> cameraPhase ?st = ParkedAtParent"
    by (simp add: run_def handler_defs initial_app_def)
  show ?thesis
    using queued_link_owned_and_consumed_on_stored_phase [OF r] r p by simp
qed

lemma no_moon_click_keeps_empty:
  "\<not> is_moon_click e \<Longrightarrow> pendingLinkRef st = None \<Longrightarrow> activeLink st = None
   \<Longrightarrow> pendingLinkRef (apply_event e st) = None \<and> activeLink (apply_event e st) = None"
  by (cases e) (auto simp: handler_defs)

lemma run_no_moon_click_keeps_empty:
  "list_all (\<lambda>e. \<not> is_moon_click e) es \<Longrightarrow> pendingLinkRef st = None \<Longrightarrow> activeLink st = None
   \<Longrightarrow> pendingLinkRef (run es st) = None \<and> activeLink (run es st) = None"
proof (induction es arbitrary: st)
  case Nil
  then show ?case by (simp add: run_def)
next
  case (Cons e es)
  have step: "pendingLinkRef (apply_event e st) = None \<and> activeLink (apply_event e st) = None"
    using Cons.prems by (intro no_moon_click_keeps_empty) simp_all
  have "run (e # es) st = run es (apply_event e st)" by (simp add: run_def)
  then show ?case using Cons.IH [of "apply_event e st"] Cons.prems step by simp
qed

lemma user_event_app_cleared:
  assumes "pendingLinkRef (h (app w)) = None"
  shows "app (user_event h w) = h (app w)"
  using assms by (simp add: user_event_def commit_def Let_def pending_link_effect_def)

text \<open>
  Claim C10. Every operation that navigates away from the context of a queued link
  empties the queue: back to home, back to section, a click on any section entry of the
  navigation bar, a click on a planet of the canvas, and a call of the section handler
  for another section or with a link open. After the operation and the effects of its
  render the queue is empty and no link is active; and as long as no moon is clicked the
  queue stays empty and no link becomes active, whatever the camera reports and whenever
  the pending-link effect runs: the link queued before is never consumed.
\<close>

theorem navigating_away_clears_pending:
  assumes "h = handleBack \<or> h = handleBackToSection \<or> (\<exists>sid. h = navSectionClick sid)
           \<or> (\<exists>i. h = handleClickSection i
                  \<and> (activeSection (app w) \<noteq> Some i \<or> truthy (activeLink (app w))))
           \<or> (\<exists>pick c i. handleClick pick c (activeSection (app w)) (activeLink (app w))
                            (scene3d w) = SectionClicked i
                  \<and> h = handleClickSection i)"
      and "list_all (\<lambda>e. \<not> is_moon_click e) es"
  shows "pendingLinkRef (app (user_event h w)) = None
     \<and> activeLink (app (user_event h w)) = None
     \<and> pendingLinkRef (run es (app (user_event h w))) = None
     \<and> activeLink (run es (app (user_event h w))) = None"
proof -
  have a: "pendingLinkRef (h (app w)) = None \<and> activeLink (h (app w)) = None"
    using assms(1)
  proof (elim disjE exE conjE)
    assume "h = handleBack"
    then show ?thesis by (simp add: handleBack_def)
  next
    assume "h = handleBackToSection"
    then show ?thesis by (simp add: handleBackToSection_def)
  next
    fix sid assume "h = navSectionClick sid"
    then show ?thesis
      by (simp add: navSectionClick_def handleBack_def handleBackToSection_def
            handleClickSection_def)
  next
    fix i assume "h = handleClickSection i" "activeSection (app w) \<noteq> Some i"
    then show ?thesis by (simp add: handleClickSection_def)
  next
    fix i assume "h = handleClickSection i" "truthy (activeLink (app w))"
    then show ?thesis by (simp add: handleClickSection_def)
  next
    fix pick c i
    assume c: "handleClick pick c (activeSection (app w)) (activeLink (app w)) (scene3d w)
                 = SectionClicked i"
       and h: "h = handleClickSection i"
    from planet_click_from_home [OF c] have "activeSection (app w) \<noteq> Some i"
      using untruthy_differs by blast
    then show ?thesis using h by (simp add: handleClickSection_def)
  qed
  then have e: "app (user_event h w) = h (app w)" by (simp add: user_event_app_cleared)
  show ?thesis
    using a e run_no_moon_click_keeps_empty [OF assms(2), of "h (app w)"] by simp
qed

theorem navigating_away_clears_pending_witness:
  "nav_view (user_event (handleClickSubSphere ''yoga'' ''classes'') initial_world)
     = (Some ''yoga'', None, Some ''classes'', Idle)
   \<and> nav_view (user_event (navSectionClick ''dev'')
        (user_event (handleClickSubSphere ''yoga'' ''classes'') initial_world))
     = (Some ''dev'', None, None, Idle)
   \<and> activeLink
       (run [CameraProgress ParkedAtParent 0, PendingLinkEffect]
          (app (user_event (navSectionClick ''dev'')
             (user_event (handleClickSubSphere ''yoga'' ''classes'') initial_world))))
     = None
   \<and> pendingLinkRef
       (run [CameraProgress ParkedAtParent 0, PendingLinkEffect]
          (app (user_event (navSectionClick ''dev'')
             (user_event (handleClickSubSphere ''yoga'' ''classes'') initial_world))))
     = None"
proof -
  define w where "w = user_event (handleClickSubSphere ''yoga'' ''classes'') initial_world"
  have h1: "navSectionClick ''dev'' = handleBack \<or> navSectionClick ''dev'' = handleBackToSection
           \<or> (\<exists>sid. navSectionClick ''dev'' = navSectionClick sid)
           \<or> (\<exists>i. navSectionClick ''dev'' = handleClickSection i
                  \<and> (activeSection (app w) \<noteq> Some i \<or> truthy (activeLink (app w))))
           \<or> (\<exists>pick c i. handleClick pick c (activeSection (app w)) (activeLink (app w))
                            (scene3d w) = SectionClicked i
                  \<and> navSectionClick ''dev'' = handleClickSection i)"
    by blast
  have h2: "list_all (\<lambda>e. \<not> is_moon_click e) [CameraProgress ParkedAtParent 0, PendingLinkEffect]"
    by simp
  have n: "nav_view w = (Some ''yoga'', None, Some ''classes'', Idle)"
    by (simp add: w_def eval_defs)
  have m: "nav_view (user_event (navSectionClick ''dev'') w) = (Some ''dev'', None, None, Idle)"
    by (simp add: w_def eval_defs navSectionClick_def)
  show ?thesis
    using navigating_away_clears_pending [OF h1 h2] n m by (simp add: w_def)
qed

section \<open>Properties of section entry\<close>

text \<open>
  Claim C5. For every section \<open>s\<close> and every state, entering \<open>s\<close> twice in a row gives
  the state that entering it once gives: the section is \<open>s\<close>, no link is active, and
  the second call changes neither the App state nor the scene, so it starts no flight.
\<close>

theorem enter_section_twice_idempotent:
  "user_event (handleClickSection s) (user_event (handleClickSection s) w)
     = user_event (handleClickSection s) w
   \<and> activeSection (app (user_event (handleClickSection s) w)) = Some s
   \<and> \<not> truthy (activeLink (app (user_event (handleClickSection s) w)))
   \<and> scene3d (user_event (handleClickSection s) (user_event (handleClickSection s) w))
     = scene3d (user_event (handleClickSection s) w)"
proof (cases "activeSection (app w) = Some s \<and> \<not> truthy (activeLink (app w))")
  case True
  then have "user_event (handleClickSection s) w = w"
    by (simp add: user_event_def commit_def handleClickSection_def Let_def)
  then show ?thesis using True by simp
next
  case False
  define a where "a = (app w)\<lparr>pendingLinkRef := None, activeLink := None, activeSection := Some s\<rparr>"
  have h: "handleClickSection s (app w) = a"
    using False by (auto simp: handleClickSection_def a_def)
  have e: "pending_link_effect a = a"
    by (simp add: pending_link_effect_def a_def)
  have app1: "app (user_event (handleClickSection s) w) = a"
    by (simp add: user_event_def commit_def Let_def h e)
  have again: "handleClickSection s a = a"
    by (simp add: handleClickSection_def a_def)
  have "user_event (handleClickSection s) (user_event (handleClickSection s) w)
          = user_event (handleClickSection s) w"
    unfolding user_event_def [of _ "user_event (handleClickSection s) w"]
    by (simp add: app1 again commit_def Let_def)
  then show ?thesis using app1 by (simp add: a_def)
qed

section \<open>Properties of the camera fly trigger\<close>

lemma trigger_keeps_camera: "cameraRef (camera_fly_trigger sec lnk sc) = cameraRef sc"
  by (simp add: camera_fly_trigger_def Let_def split: option.splits)

lemma trigger_mounts: "cameraRef sc = Some cam \<Longrightarrow> mountedRef (camera_fly_trigger sec lnk sc)"
  by (simp add: camera_fly_trigger_def Let_def)

lemma trigger_prev:
  "cameraRef sc = Some cam \<Longrightarrow>
   prevSectionRef (camera_fly_trigger sec lnk sc) = sec
   \<and> prevLinkRef (camera_fly_trigger sec lnk sc) = lnk"
  by (simp add: camera_fly_trigger_def Let_def)

lemma trigger_mounted: "cameraRef sc \<noteq> None \<Longrightarrow> mountedRef (camera_fly_trigger sec lnk sc)"
  by (auto simp: trigger_mounts)

lemma trigger_prevS: "cameraRef sc \<noteq> None \<Longrightarrow> prevSectionRef (camera_fly_trigger sec lnk sc) = sec"
  using trigger_prev by auto

lemma trigger_prevL: "cameraRef sc \<noteq> None \<Longrightarrow> prevLinkRef (camera_fly_trigger sec lnk sc) = lnk"
  using trigger_prev by auto

lemma trigger_table:
  assumes "cameraRef sc \<noteq> None" and "mountedRef sc"
  shows "cameraAnimRef (camera_fly_trigger sec lnk sc) = cameraAnimRef sc
     \<or> (flight_by_table (prevLinkRef sc) (cameraAnimRef (camera_fly_trigger sec lnk sc))
        \<and> (truthy lnk \<longrightarrow> phase (cameraAnimRef (camera_fly_trigger sec lnk sc)) = FlyToSub))"
  using assms
  by (cases "cameraRef sc") (simp_all add: camera_fly_trigger_def Let_def flight_by_table_def)

lemma effect_section: "activeSection (pending_link_effect a) = activeSection a"
  by (simp add: pending_link_effect_def)

lemma effect_link:
  "activeLink (pending_link_effect a) = activeLink a \<or> truthy (activeLink (pending_link_effect a))"
  by (auto simp: pending_link_effect_def)

lemma effect_idle: "\<not> truthy (pendingLinkRef a) \<Longrightarrow> pending_link_effect a = a"
  by (simp add: pending_link_effect_def)

text \<open>
  Whenever the fly trigger starts a flight, the flight's recorded start position is the
  camera's position at that instant and its recorded start look-at is the look-at stored
  in the animation record. Every flight frame stores the look-at it applies, so directly
  after a flight frame the stored look-at is the point the camera looks at.
\<close>

theorem new_flight_starts_at_recorded_pose:
  assumes "cameraRef sc = Some cam"
  shows
   "(cameraAnimRef (camera_fly_trigger sec lnk sc) = cameraAnimRef sc
      \<or> (active (cameraAnimRef (camera_fly_trigger sec lnk sc))
          \<and> progress (cameraAnimRef (camera_fly_trigger sec lnk sc)) = 0
          \<and> startPos (cameraAnimRef (camera_fly_trigger sec lnk sc)) = position cam
          \<and> startLookAt (cameraAnimRef (camera_fly_trigger sec lnk sc))
              = currentLookAt (cameraAnimRef sc)))
    \<and> (\<forall>delta env cam0 sc0 r.
          flight_frame delta env cam0 sc0 = Inr (sc, r) \<longrightarrow>
          currentLookAt (cameraAnimRef sc) = lookTarget cam)"
proof -
  have "\<And>delta env cam0 sc0 r. flight_frame delta env cam0 sc0 = Inr (sc, r)
         \<Longrightarrow> currentLookAt (cameraAnimRef sc) = lookTarget cam"
    using assms by (auto simp: flight_frame_def Let_def split: sum.splits prod.splits)
  moreover have "cameraAnimRef (camera_fly_trigger sec lnk sc) = cameraAnimRef sc
      \<or> (active (cameraAnimRef (camera_fly_trigger sec lnk sc))
          \<and> progress (cameraAnimRef (camera_fly_trigger sec lnk sc)) = 0
          \<and> startPos (cameraAnimRef (camera_fly_trigger sec lnk sc)) = position cam
          \<and> startLookAt (cameraAnimRef (camera_fly_trigger sec lnk sc))
              = currentLookAt (cameraAnimRef sc))"
    using assms by (auto simp: camera_fly_trigger_def Let_def)
  ultimately show ?thesis by blast
qed

theorem new_flight_starts_at_recorded_pose_witness:
  "flight_frame 1 example_env initial_camera sc_art_flying
     = Inr (sc_art_midflight, Some (FlyToParent, 2 / 5))
   \<and> active (cameraAnimRef sc_art_midflight)
   \<and> phase (cameraAnimRef (camera_fly_trigger None None sc_art_midflight)) = FlyHome
   \<and> startPos (cameraAnimRef (camera_fly_trigger None None sc_art_midflight))
       = (256 / 625, 954 / 625, 837 / 250)
   \<and> startLookAt (cameraAnimRef (camera_fly_trigger None None sc_art_midflight))
       = (32 / 125, 0, 0)
   \<and> progress (cameraAnimRef (camera_fly_trigger None None sc_art_midflight)) = 0"
proof -
  let ?cam = "\<lparr>position = (256 / 625, 954 / 625, 837 / 250), up = (0, 1, 0),
               lookTarget = (32 / 125, 0, 0)\<rparr>"
  have c: "cameraRef sc_art_midflight = Some ?cam"
    by (simp add: sc_art_midflight_def)
  have f: "flight_frame 1 example_env initial_camera sc_art_flying
             = Inr (sc_art_midflight, Some (FlyToParent, 2 / 5))"
    by (rule art_midflight_frame)
  have p: "phase (cameraAnimRef (camera_fly_trigger None None sc_art_midflight)) = FlyHome"
    by (simp add: sc_art_midflight_def camera_fly_trigger_def Let_def)
  show ?thesis
    using new_flight_starts_at_recorded_pose [OF c, of None None] f p
    by (auto simp: sc_art_midflight_def)
qed

section \<open>Properties of the render loop\<close>

lemma animate_keeps:
  "animate time delta sec lnk env sc = Inr (sc', r) \<Longrightarrow>
   targetSectionIndex (cameraAnimRef sc') = targetSectionIndex (cameraAnimRef sc)
   \<and> targetLinkIndex (cameraAnimRef sc') = targetLinkIndex (cameraAnimRef sc)
   \<and> phase (cameraAnimRef sc') = phase (cameraAnimRef sc)
   \<and> duration (cameraAnimRef sc') = duration (cameraAnimRef sc)
   \<and> prevSectionRef sc' = prevSectionRef sc \<and> prevLinkRef sc' = prevLinkRef sc
   \<and> mountedRef sc' = mountedRef sc
   \<and> (cameraRef sc' = None) = (cameraRef sc = None)"
  by (auto simp: animate_def Let_def animate_rotation_def flight_frame_def home_orbit_def
        parked_at_parent_def parked_at_sub_def
        split: option.splits if_splits sum.splits prod.splits)

section \<open>Flights and the navigation state\<close>

lemma commit_refs:
  assumes "cameraRef (scene3d w) \<noteq> None" and "mountedRef (scene3d w)"
      and "prevSectionRef (scene3d w) = activeSection old"
      and "prevLinkRef (scene3d w) = activeLink old"
  shows "refs_in_step (commit old w)"
  using assms
  by (simp add: commit_def Let_def refs_in_step_def trigger_keeps_camera trigger_mounted
        trigger_prevS trigger_prevL effect_section)

lemma commit_table:
  assumes "cameraRef (scene3d w) \<noteq> None" and "mountedRef (scene3d w)"
      and "prevSectionRef (scene3d w) = activeSection old"
      and "prevLinkRef (scene3d w) = activeLink old"
  shows "cameraAnimRef (scene3d (commit old w)) = cameraAnimRef (scene3d w)
     \<or> flight_by_table (activeLink old) (cameraAnimRef (scene3d (commit old w)))"
proof -
  define a1 where "a1 = app w"
  define sc1 where "sc1 = (if activeSection a1 = activeSection old \<and> activeLink a1 = activeLink old
              then scene3d w
              else camera_fly_trigger (activeSection a1) (activeLink a1) (scene3d w))"
  define a2 where "a2 = (if cameraPhase a1 = cameraPhase old \<and> activeSection a1 = activeSection old
             then a1 else pending_link_effect a1)"
  define sc2 where "sc2 = (if activeLink a2 = activeLink a1 then sc1
              else camera_fly_trigger (activeSection a2) (activeLink a2) sc1)"
  have c: "scene3d (commit old w) = sc2"
    by (simp add: commit_def Let_def sc2_def a2_def sc1_def a1_def)
  have t1: "cameraAnimRef sc1 = cameraAnimRef (scene3d w)
            \<or> flight_by_table (activeLink old) (cameraAnimRef sc1)"
    using trigger_table [OF assms(1,2), of "activeSection a1" "activeLink a1"] assms(4)
    by (auto simp: sc1_def)
  have s1: "cameraRef sc1 \<noteq> None \<and> mountedRef sc1"
    using assms(1,2) by (simp add: sc1_def trigger_keeps_camera trigger_mounted)
  have t2: "cameraAnimRef sc2 = cameraAnimRef (scene3d w)
            \<or> flight_by_table (activeLink old) (cameraAnimRef sc2)"
  proof (cases "activeLink a2 = activeLink a1")
    case True
    then show ?thesis using t1 by (simp add: sc2_def)
  next
    case False
    then have l: "truthy (activeLink a2)"
      using effect_link [of a1] by (auto simp: a2_def split: if_splits)
    have e: "sc2 = camera_fly_trigger (activeSection a2) (activeLink a2) sc1"
      using False by (simp add: sc2_def)
    have "cameraAnimRef sc2 = cameraAnimRef sc1
          \<or> (flight_by_table (prevLinkRef sc1) (cameraAnimRef sc2)
              \<and> phase (cameraAnimRef sc2) = FlyToSub)"
      unfolding e using trigger_table [of sc1 "activeSection a2" "activeLink a2"] s1 l by blast
    then show ?thesis
    proof
      assume "cameraAnimRef sc2 = cameraAnimRef sc1"
      then show ?thesis using t1 by simp
    next
      assume "flight_by_table (prevLinkRef sc1) (cameraAnimRef sc2)
              \<and> phase (cameraAnimRef sc2) = FlyToSub"
      then have "flight_by_table (activeLink old) (cameraAnimRef sc2)"
        by (auto simp: flight_by_table_def)
      then show ?thesis by simp
    qed
  qed
  show ?thesis using t2 by (simp add: c)
qed

lemma user_event_refs: "refs_in_step w \<Longrightarrow> refs_in_step (user_event h w)"
  unfolding user_event_def by (rule commit_refs) (simp_all add: refs_in_step_def)

lemma user_event_table:
  assumes "refs_in_step w"
  shows "cameraAnimRef (scene3d (user_event h w)) = cameraAnimRef (scene3d w)
     \<or> flight_by_table (activeLink (app w)) (cameraAnimRef (scene3d (user_event h w)))"
  using commit_table [of "w\<lparr>app := h (app w)\<rparr>" "app w"] assms
  by (simp add: user_event_def refs_in_step_def)

lemma user_event_flight:
  assumes "activeSection (h (app w)) \<noteq> activeSection (app w)
           \<or> activeLink (h (app w)) \<noteq> activeLink (app w)"
      and "(cameraPhase (h (app w)) = cameraPhase (app w)
             \<and> activeSection (h (app w)) = activeSection (app w))
           \<or> \<not> truthy (pendingLinkRef (h (app w)))"
  shows "scene3d (user_event h w)
         = camera_fly_trigger (activeSection (h (app w))) (activeLink (h (app w))) (scene3d w)"
  using assms by (auto simp: user_event_def commit_def Let_def effect_idle)

lemma refs_initial: "refs_in_step initial_world"
  by (simp add: refs_in_step_def initial_world_def initial_app_def initial_scene_def
        camera_fly_trigger_def)

lemma dispatch_click_refs: "refs_in_step w \<Longrightarrow> refs_in_step (dispatch_click out w)"
  by (cases out) (simp_all add: dispatch_click_def user_event_refs)

lemma dispatch_click_table:
  assumes "refs_in_step w"
  shows "cameraAnimRef (scene3d (dispatch_click out w)) = cameraAnimRef (scene3d w)
     \<or> flight_by_table (activeLink (app w)) (cameraAnimRef (scene3d (dispatch_click out w)))"
  using user_event_table [OF assms] by (cases out) (simp_all add: dispatch_click_def)

lemma frame_step:
  assumes "frame time delta env w = Inr w'" and "refs_in_step w"
  shows "refs_in_step w'
     \<and> ((phase (cameraAnimRef (scene3d w')) = phase (cameraAnimRef (scene3d w))
          \<and> duration (cameraAnimRef (scene3d w')) = duration (cameraAnimRef (scene3d w)))
        \<or> flight_by_table (activeLink (app w)) (cameraAnimRef (scene3d w')))"
proof -
  from assms(1) obtain sc r where
    a: "animate time delta (activeSection (app w)) (activeLink (app w)) env (scene3d w) = Inr (sc, r)"
    by (auto simp: frame_def split: sum.splits prod.splits option.splits)
  have k: "refs_in_step (w\<lparr>scene3d := sc\<rparr>)"
    using animate_keeps [OF a] assms(2) by (auto simp: refs_in_step_def)
  show ?thesis
  proof (cases r)
    case None
    then have "w' = w\<lparr>scene3d := sc\<rparr>" using assms(1) a by (simp add: frame_def)
    then show ?thesis using k animate_keeps [OF a] by simp
  next
    case (Some pp)
    obtain ph pr where pp: "pp = (ph, pr)" by (cases pp)
    have e: "w' = user_event (handleCameraProgress ph pr) (w\<lparr>scene3d := sc\<rparr>)"
      using assms(1) a Some pp by (simp add: frame_def)
    show ?thesis
      unfolding e
      using user_event_refs [OF k, of "handleCameraProgress ph pr"]
        user_event_table [OF k, of "handleCameraProgress ph pr"] animate_keeps [OF a]
      by auto
  qed
qed

lemma perform_step:
  assumes "perform a w = Inr w'" and "refs_in_step w"
  shows "refs_in_step w'
     \<and> ((phase (cameraAnimRef (scene3d w')) = phase (cameraAnimRef (scene3d w))
          \<and> duration (cameraAnimRef (scene3d w')) = duration (cameraAnimRef (scene3d w)))
        \<or> flight_by_table (activeLink (app w)) (cameraAnimRef (scene3d w')))"
proof (cases a)
  case (Command e)
  show ?thesis
  proof (cases "e = PendingLinkEffect")
    case True
    then show ?thesis using assms Command by simp
  next
    case False
    then have "w' = user_event (apply_event e) w" using assms(1) Command by (cases e) simp_all
    then show ?thesis
      using user_event_refs [OF assms(2), of "apply_event e"]
        user_event_table [OF assms(2), of "apply_event e"] by auto
  qed
next
  case (MouseDown e)
  then show ?thesis using assms by (auto simp: refs_in_step_def onMD_def)
next
  case (MouseMove e)
  then show ?thesis using assms by (auto simp: refs_in_step_def onMM_def Let_def)
next
  case (MouseUp pick e)
  define w1 where "w1 = w\<lparr>scene3d := snd (onMU pick e (activeSection (app w)) (activeLink (app w)) (scene3d w))\<rparr>"
  have k: "refs_in_step w1" using assms(2) by (simp add: w1_def refs_in_step_def onMU_def)
  have s: "cameraAnimRef (scene3d w1) = cameraAnimRef (scene3d w) \<and> app w1 = app w"
    by (simp add: w1_def onMU_def)
  have e: "w' = dispatch_click (fst (onMU pick e (activeSection (app w)) (activeLink (app w)) (scene3d w))) w1"
    using assms(1) MouseUp by (simp add: mouse_up_def Let_def w1_def)
  show ?thesis unfolding e
    using dispatch_click_refs [OF k] dispatch_click_table [OF k] s by metis
next
  case (Wheel d)
  then show ?thesis using assms by (auto simp: refs_in_step_def onWH_def)
next
  case (TouchStart ts)
  then show ?thesis using assms by (auto simp: refs_in_step_def onTS_def)
next
  case (TouchMove ts)
  then show ?thesis using assms
    by (auto simp: refs_in_step_def onTM_def Let_def split: option.splits)
next
  case (TouchEnd pick ch)
  define w1 where "w1 = w\<lparr>scene3d := snd (onTE pick ch (activeSection (app w)) (activeLink (app w)) (scene3d w))\<rparr>"
  have k: "refs_in_step w1" using assms(2) by (simp add: w1_def refs_in_step_def onTE_def)
  have s: "cameraAnimRef (scene3d w1) = cameraAnimRef (scene3d w) \<and> app w1 = app w"
    by (simp add: w1_def onTE_def)
  have e: "w' = dispatch_click (fst (onTE pick ch (activeSection (app w)) (activeLink (app w)) (scene3d w))) w1"
    using assms(1) TouchEnd by (simp add: Let_def w1_def)
  show ?thesis unfolding e
    using dispatch_click_refs [OF k] dispatch_click_table [OF k] s by metis
next
  case (Frame t d env)
  then show ?thesis using assms frame_step [of t d env w w'] by simp
qed

lemma perform_all_refs:
  "perform_all as w = Inr w' \<Longrightarrow> refs_in_step w \<Longrightarrow> refs_in_step w'"
proof (induction as arbitrary: w)
  case Nil
  then show ?case by simp
next
  case (Cons a as)
  from Cons.prems(1) obtain w1 where p: "perform a w = Inr w1" and r: "perform_all as w1 = Inr w'"
    by (auto split: sum.splits)
  from perform_step [OF p Cons.prems(2)] have "refs_in_step w1" by simp
  from Cons.IH [OF r this] show ?case .
qed

lemma home_unlinked_event:
  "activeSection st = None \<longrightarrow> activeLink st = None
   \<Longrightarrow> activeSection (apply_event e st) = None \<longrightarrow> activeLink (apply_event e st) = None"
  by (cases e) (auto simp: handler_defs)

lemma home_unlinked_commit:
  assumes "activeSection (app w) = None \<longrightarrow> activeLink (app w) = None"
  shows "activeSection (app (commit old w)) = None \<longrightarrow> activeLink (app (commit old w)) = None"
  using assms home_unlinked_event [of "app w" PendingLinkEffect]
  by (auto simp: commit_def Let_def)

lemma home_unlinked_step:
  assumes "perform a w = Inr w'" and "activeSection (app w) = None \<longrightarrow> activeLink (app w) = None"
  shows "activeSection (app w') = None \<longrightarrow> activeLink (app w') = None"
proof (cases a)
  case (Command e)
  show ?thesis
  proof (cases "e = PendingLinkEffect")
    case True
    then show ?thesis using assms Command by simp
  next
    case False
    then have "w' = user_event (apply_event e) w" using assms(1) Command by (cases e) simp_all
    then show ?thesis
      using home_unlinked_commit [of "w\<lparr>app := apply_event e (app w)\<rparr>" "app w"]
        home_unlinked_event [OF assms(2), of e]
      by (simp add: user_event_def)
  qed
next
  case (MouseUp pick e)
  define out where "out = fst (onMU pick e (activeSection (app w)) (activeLink (app w)) (scene3d w))"
  define w1 where "w1 = w\<lparr>scene3d := snd (onMU pick e (activeSection (app w)) (activeLink (app w)) (scene3d w))\<rparr>"
  have e: "w' = dispatch_click out w1"
    using assms(1) MouseUp by (simp add: mouse_up_def Let_def w1_def out_def)
  have a1: "app w1 = app w" by (simp add: w1_def)
  show ?thesis unfolding e
    using home_unlinked_commit [of "w1\<lparr>app := h (app w1)\<rparr>" "app w1" for h]
      home_unlinked_event [OF assms(2), of "ClickSection i" for i]
      home_unlinked_event [OF assms(2), of "ClickSubSphere s l" for s l] assms(2) a1
    by (cases out) (simp_all add: dispatch_click_def user_event_def)
next
  case (TouchEnd pick ch)
  define out where "out = fst (onTE pick ch (activeSection (app w)) (activeLink (app w)) (scene3d w))"
  define w1 where "w1 = w\<lparr>scene3d := snd (onTE pick ch (activeSection (app w)) (activeLink (app w)) (scene3d w))\<rparr>"
  have e: "w' = dispatch_click out w1"
    using assms(1) TouchEnd by (simp add: Let_def w1_def out_def)
  have a1: "app w1 = app w" by (simp add: w1_def)
  show ?thesis unfolding e
    using home_unlinked_commit [of "w1\<lparr>app := h (app w1)\<rparr>" "app w1" for h]
      home_unlinked_event [OF assms(2), of "ClickSection i" for i]
      home_unlinked_event [OF assms(2), of "ClickSubSphere s l" for s l] assms(2) a1
    by (cases out) (simp_all add: dispatch_click_def user_event_def)
next
  case (Frame t d env)
  from assms(1) Frame obtain sc r where
    a: "animate t d (activeSection (app w)) (activeLink (app w)) env (scene3d w) = Inr (sc, r)"
    by (auto simp: frame_def split: sum.splits prod.splits option.splits)
  show ?thesis
  proof (cases r)
    case None
    then have "w' = w\<lparr>scene3d := sc\<rparr>" using assms(1) Frame a by (simp add: frame_def)
    then show ?thesis using assms(2) by simp
  next
    case (Some pp)
    obtain ph pr where pp: "pp = (ph, pr)" by (cases pp)
    have e: "w' = user_event (handleCameraProgress ph pr) (w\<lparr>scene3d := sc\<rparr>)"
      using assms(1) Frame a Some pp by (simp add: frame_def)
    show ?thesis unfolding e
      using home_unlinked_commit [of "w\<lparr>scene3d := sc, app := handleCameraProgress ph pr (app w)\<rparr>" "app w"]
        home_unlinked_event [OF assms(2), of "CameraProgress ph pr"]
      by (simp add: user_event_def)
  qed
qed (use assms in auto)

lemma home_unlinked_run:
  "perform_all as w = Inr w' \<Longrightarrow> activeSection (app w) = None \<longrightarrow> activeLink (app w) = None
   \<Longrightarrow> activeSection (app w') = None \<longrightarrow> activeLink (app w') = None"
proof (induction as arbitrary: w)
  case Nil
  then show ?case by simp
next
  case (Cons a as)
  from Cons.prems(1) obtain w1 where p: "perform a w = Inr w1" and r: "perform_all as w1 = Inr w'"
    by (auto split: sum.splits)
  from Cons.IH [OF r home_unlinked_step [OF p Cons.prems(2)]] show ?case .
qed

lemma enter_section_flight:
  assumes "refs_in_step w" and "i \<noteq> []"
      and "\<not> (activeSection (app w) = Some i \<and> \<not> truthy (activeLink (app w)))"
  shows "duration_view (user_event (handleClickSection i) w)
         = (True, FlyToParent, 0, if truthy (activeLink (app w)) then 1.5 else 2.5)"
proof -
  have "scene3d (user_event (handleClickSection i) w)
        = camera_fly_trigger (Some i) None (scene3d w)"
    using assms(3) user_event_flight [of "handleClickSection i" w]
      truthy_given [of "activeLink (app w)"]
    by (auto simp: handleClickSection_def)
  then show ?thesis using assms(1,2)
    by (auto simp: duration_view_def refs_in_step_def camera_fly_trigger_def Let_def)
qed

lemma planet_click_flight:
  assumes "refs_in_step w" and "activeSection (app w) = None"
      and "activeLink (app w) = None"
      and "fst (onMU pick e (activeSection (app w)) (activeLink (app w)) (scene3d w))
             = SectionClicked i"
  shows "duration_view (mouse_up pick e w) = (True, FlyToParent, 0, 2.5)"
proof -
  define w1 where
    "w1 = w\<lparr>scene3d := snd (onMU pick e (activeSection (app w)) (activeLink (app w)) (scene3d w))\<rparr>"
  have k: "refs_in_step w1" using assms(1) by (simp add: w1_def refs_in_step_def onMU_def)
  have s: "app w1 = app w" by (simp add: w1_def)
  have "handleClick pick e (activeSection (app w)) (activeLink (app w)) (scene3d w)
          = SectionClicked i"
    using assms(4) by (simp add: onMU_def split: if_splits)
  then have i: "i \<noteq> []" using planet_click_from_home by blast
  have e: "mouse_up pick e w = user_event (handleClickSection i) w1"
    using assms(4) by (simp add: mouse_up_def Let_def w1_def dispatch_click_def)
  show ?thesis
    unfolding e using enter_section_flight [OF k i] assms(2,3) s by simp
qed

lemma back_to_section_flight:
  assumes "refs_in_step w" and "truthy (activeSection (app w))" and "truthy (activeLink (app w))"
  shows "duration_view (user_event handleBackToSection w) = (True, FlyToParent, 0, 1.5)"
proof -
  have "scene3d (user_event handleBackToSection w)
        = camera_fly_trigger (activeSection (app w)) None (scene3d w)"
    using user_event_flight [of handleBackToSection w] truthy_given [OF assms(3)]
    by (auto simp: handleBackToSection_def)
  then show ?thesis using assms
    by (auto simp: duration_view_def refs_in_step_def camera_fly_trigger_def Let_def)
qed

lemma back_flight:
  assumes "refs_in_step w" and "truthy (activeSection (app w))"
  shows "duration_view (user_event handleBack w) = (True, FlyHome, 0, 2)"
proof -
  have "scene3d (user_event handleBack w) = camera_fly_trigger None None (scene3d w)"
    using user_event_flight [of handleBack w] truthy_given [OF assms(2)]
    by (auto simp: handleBack_def)
  then show ?thesis using assms
    by (auto simp: duration_view_def refs_in_step_def camera_fly_trigger_def Let_def)
qed

lemma open_link_flight:
  assumes "refs_in_step w" and "activeSection (app w) = Some s" and "activeLink (app w) \<noteq> Some l"
      and "cameraPhase (app w) \<noteq> FlyToParent" and "0 \<le> linkIndexOf (Some s) (Some l)"
  shows "duration_view (user_event (handleClickSubSphere s l) w) = (True, FlyToSub, 0, 1.8)"
proof -
  have "scene3d (user_event (handleClickSubSphere s l) w)
        = camera_fly_trigger (Some s) (Some l) (scene3d w)"
    using assms(2,3,4) user_event_flight [of "handleClickSubSphere s l" w]
    by (auto simp: handleClickSubSphere_def)
  then show ?thesis using assms(1,5) known_link_nonempty [OF assms(5)] linkIndexOf_known [OF assms(5)]
    by (auto simp: duration_view_def refs_in_step_def camera_fly_trigger_def Let_def)
qed

text \<open>
  Claim C9. Take any state \<open>w\<close> the page reaches from its mounted state by commands,
  input events and frames. Whatever happens next, the animation record keeps its kind
  and duration or holds a flight that has just been started (active, progress 0) with
  the duration of its kind: \<open>flyToParent\<close> 1.5 s when a link was active in \<open>w\<close> and
  2.5 s otherwise, \<open>flyToSub\<close> 1.8 s, \<open>flyHome\<close> 2.0 s. At home no link is active.
  And each navigation step starts the flight of its kind: a section click (with a
  non-empty id) that is not a repeat click on the active section starts
  \<open>flyToParent\<close> with 1.5 s from a link-level view and 2.5 s otherwise; from
  home, a section click and a click on a planet of the canvas start
  \<open>flyToParent\<close> with 2.5 s; back to section from a link starts \<open>flyToParent\<close> with
  1.5 s; back to home from a section starts \<open>flyHome\<close> with 2.0 s; opening a known
  link of the active section, unless the flight to the section is being reported, starts
  \<open>flyToSub\<close> with 1.8 s.
\<close>

theorem flight_durations_by_navigation:
  assumes "perform_all as initial_world = Inr w"
  shows
   "(\<forall>a w'. perform a w = Inr w' \<longrightarrow>
       (let old = cameraAnimRef (scene3d w); new = cameraAnimRef (scene3d w')
        in (phase new = phase old \<and> duration new = duration old)
           \<or> (active new \<and> progress new = 0
               \<and> ((phase new = FlyToParent
                     \<and> duration new = (if truthy (activeLink (app w)) then 1.5 else 2.5))
                  \<or> (phase new = FlyToSub \<and> duration new = 1.8)
                  \<or> (phase new = FlyHome \<and> duration new = 2)))))
    \<and> (activeSection (app w) = None \<longrightarrow> activeLink (app w) = None)
    \<and> (\<forall>i. i \<noteq> [] \<and> \<not> (activeSection (app w) = Some i \<and> \<not> truthy (activeLink (app w))) \<longrightarrow>
          observe duration_view (perform (Command (ClickSection i)) w)
            = Some (True, FlyToParent, 0, if truthy (activeLink (app w)) then 1.5 else 2.5))
    \<and> (\<forall>i. i \<noteq> [] \<and> activeSection (app w) = None \<longrightarrow>
          observe duration_view (perform (Command (ClickSection i)) w)
            = Some (True, FlyToParent, 0, 2.5))
    \<and> (\<forall>pick e i. activeSection (app w) = None \<and> release_view pick e w = SectionClicked i \<longrightarrow>
          observe duration_view (perform (MouseUp pick e) w)
            = Some (True, FlyToParent, 0, 2.5))
    \<and> (truthy (activeSection (app w)) \<and> truthy (activeLink (app w)) \<longrightarrow>
          observe duration_view (perform (Command BackToSection) w)
            = Some (True, FlyToParent, 0, 1.5))
    \<and> (truthy (activeSection (app w)) \<longrightarrow>
          observe duration_view (perform (Command Back) w) = Some (True, FlyHome, 0, 2))
    \<and> (\<forall>s l. activeSection (app w) = Some s \<and> activeLink (app w) \<noteq> Some l
               \<and> cameraPhase (app w) \<noteq> FlyToParent \<and> 0 \<le> linkIndexOf (Some s) (Some l) \<longrightarrow>
          observe duration_view (perform (Command (ClickSubSphere s l)) w)
            = Some (True, FlyToSub, 0, 1.8))"
proof -
  have r: "refs_in_step w" using perform_all_refs [OF assms refs_initial] .
  have h: "activeSection (app w) = None \<longrightarrow> activeLink (app w) = None"
    using home_unlinked_run [OF assms] by (simp add: initial_world_def initial_app_def)
  have g: "\<forall>a w'. perform a w = Inr w' \<longrightarrow>
       (let old = cameraAnimRef (scene3d w); new = cameraAnimRef (scene3d w')
        in (phase new = phase old \<and> duration new = duration old)
           \<or> (active new \<and> progress new = 0
               \<and> ((phase new = FlyToParent
                     \<and> duration new = (if truthy (activeLink (app w)) then 1.5 else 2.5))
                  \<or> (phase new = FlyToSub \<and> duration new = 1.8)
                  \<or> (phase new = FlyHome \<and> duration new = 2))))"
  proof (intro allI impI)
    fix a w'
    assume "perform a w = Inr w'"
    from perform_step [OF this r] show
      "let old = cameraAnimRef (scene3d w); new = cameraAnimRef (scene3d w')
        in (phase new = phase old \<and> duration new = duration old)
           \<or> (active new \<and> progress new = 0
               \<and> ((phase new = FlyToParent
                     \<and> duration new = (if truthy (activeLink (app w)) then 1.5 else 2.5))
                  \<or> (phase new = FlyToSub \<and> duration new = 1.8)
                  \<or> (phase new = FlyHome \<and> duration new = 2)))"
      by (auto simp: Let_def flight_by_table_def)
  qed
  have c1: "\<forall>i. i \<noteq> [] \<and> \<not> (activeSection (app w) = Some i \<and> \<not> truthy (activeLink (app w))) \<longrightarrow>
          observe duration_view (perform (Command (ClickSection i)) w)
            = Some (True, FlyToParent, 0, if truthy (activeLink (app w)) then 1.5 else 2.5)"
    using enter_section_flight [OF r] by (auto simp: observe_def apply_event_fun)
  have c1a: "\<forall>i. i \<noteq> [] \<and> activeSection (app w) = None \<longrightarrow>
          observe duration_view (perform (Command (ClickSection i)) w)
            = Some (True, FlyToParent, 0, 2.5)"
    using c1 h by auto
  have c1b: "\<forall>pick e i. activeSection (app w) = None \<and> release_view pick e w = SectionClicked i \<longrightarrow>
          observe duration_view (perform (MouseUp pick e) w)
            = Some (True, FlyToParent, 0, 2.5)"
    using planet_click_flight [OF r] h by (auto simp: observe_def release_view_def)
  have c2: "truthy (activeSection (app w)) \<and> truthy (activeLink (app w)) \<longrightarrow>
          observe duration_view (perform (Command BackToSection) w)
            = Some (True, FlyToParent, 0, 1.5)"
    using back_to_section_flight [OF r] by (auto simp: observe_def apply_event_fun)
  have c3: "truthy (activeSection (app w)) \<longrightarrow>
          observe duration_view (perform (Command Back) w) = Some (True, FlyHome, 0, 2)"
    using back_flight [OF r] by (auto simp: observe_def apply_event_fun)
  have c4: "\<forall>s l. activeSection (app w) = Some s \<and> activeLink (app w) \<noteq> Some l
               \<and> cameraPhase (app w) \<noteq> FlyToParent \<and> 0 \<le> linkIndexOf (Some s) (Some l) \<longrightarrow>
          observe duration_view (perform (Command (ClickSubSphere s l)) w)
            = Some (True, FlyToSub, 0, 1.8)"
    using open_link_flight [OF r] by (auto simp: observe_def apply_event_fun)
  from g h c1 c1a c1b c2 c3 c4 show ?thesis by (intro conjI)
qed

theorem flight_durations_by_navigation_witness:
  "observe duration_view (perform_all [Command (ClickSection ''dev'')] initial_world)
     = Some (True, FlyToParent, 0, 5 / 2)
   \<and> observe duration_view
       (perform_all [Command (ClickSection ''dev''), Command (ClickSubSphere ''dev'' ''github'')]
          initial_world)
     = Some (True, FlyToSub, 0, 9 / 5)
   \<and> observe duration_view
       (perform_all [Command (ClickSection ''dev''), Command (ClickSubSphere ''dev'' ''github''),
                     Command BackToSection] initial_world)
     = Some (True, FlyToParent, 0, 3 / 2)
   \<and> observe duration_view
       (perform_all [Command (ClickSection ''dev''), Command Back] initial_world)
     = Some (True, FlyHome, 0, 2)"
proof -
  define w1 where "w1 = user_event (handleClickSection ''dev'') initial_world"
  define w2 where "w2 = user_event (handleClickSubSphere ''dev'' ''github'') w1"
  have r0: "perform_all [] initial_world = Inr initial_world" by simp
  have r1: "perform_all [Command (ClickSection ''dev'')] initial_world = Inr w1"
    by (simp add: w1_def apply_event_fun)
  have r2: "perform_all [Command (ClickSection ''dev''), Command (ClickSubSphere ''dev'' ''github'')]
              initial_world = Inr w2"
    by (simp add: w1_def w2_def apply_event_fun)
  have n0: "activeSection (app initial_world) = None \<and> activeLink (app initial_world) = None"
    by (simp add: initial_world_def initial_app_def)
  have n1: "activeSection (app w1) = Some ''dev'' \<and> activeLink (app w1) = None
            \<and> cameraPhase (app w1) = Idle"
    by (simp add: w1_def eval_defs)
  have n2: "activeSection (app w2) = Some ''dev'' \<and> activeLink (app w2) = Some ''github''"
    by (simp add: w2_def w1_def eval_defs)
  have a: "observe duration_view (perform (Command (ClickSection ''dev'')) initial_world)
             = Some (True, FlyToParent, 0, 5 / 2)"
    using flight_durations_by_navigation [OF r0, THEN conjunct2, THEN conjunct2, THEN conjunct2,
            THEN conjunct1, THEN spec, of "''dev''"] n0
    by simp
  have b: "observe duration_view (perform (Command (ClickSubSphere ''dev'' ''github'')) w1)
             = Some (True, FlyToSub, 0, 9 / 5)"
    using flight_durations_by_navigation [OF r1, THEN conjunct2, THEN conjunct2, THEN conjunct2,
            THEN conjunct2, THEN conjunct2, THEN conjunct2, THEN conjunct2, THEN spec, THEN spec,
            of "''dev''" "''github''"]
      n1 example_indices
    by simp
  have c: "observe duration_view (perform (Command BackToSection) w2)
             = Some (True, FlyToParent, 0, 3 / 2)"
    using flight_durations_by_navigation [OF r2, THEN conjunct2, THEN conjunct2, THEN conjunct2,
            THEN conjunct2, THEN conjunct2, THEN conjunct1] n2
    by simp
  have d: "observe duration_view (perform (Command Back) w1) = Some (True, FlyHome, 0, 2)"
    using flight_durations_by_navigation [OF r1, THEN conjunct2, THEN conjunct2, THEN conjunct2,
            THEN conjunct2, THEN conjunct2, THEN conjunct2, THEN conjunct1] n1
    by simp
  show ?thesis using a b c d r1 r2 by (simp add: w1_def [symmetric] w2_def [symmetric])
qed

section \<open>Properties of unknown ids\<close>




















section \<open>Properties of the input router\<close>













text \<open>
  Claim C8, at the input where the code departs from it. From the parked view of
  \<open>art\<close>, two fingers go down 200 px apart, which records the pinch baseline; then
  "back" starts the \<open>flyHome\<close> flight. With that flight active and no section active, a
  wheel event leaves the zoom target at 4.5, but moving the fingers to 100 px apart
  raises it to 5.5.
\<close>

theorem pinch_zoom_during_flight:
  "observe nav_view (perform_all pinch_then_back initial_world)
     = Some (None, None, None, ParkedAtParent)
   \<and> observe flight_view (perform_all pinch_then_back initial_world)
     = Some (True, FlyHome, 0, - 1)
   \<and> observe zoom_view (perform_all pinch_then_back initial_world) = Some (9 / 2)
   \<and> observe zoom_view (perform_all (pinch_then_back @ [Wheel 100]) initial_world)
     = Some (9 / 2)
   \<and> observe zoom_view
        (perform_all (pinch_then_back @ [TouchMove [(150, 100), (250, 100)]]) initial_world)
     = Some (11 / 2)
   \<and> observe flight_view
        (perform_all (pinch_then_back @ [TouchMove [(150, 100), (250, 100)]]) initial_world)
     = Some (True, FlyHome, 0, - 1)"
  by (simp add: eval_defs example_indices hypot_zero)

section \<open>The queued link and the camera's report\<close>

text \<open>
  Claim C2, at the input where the code departs from it. The visitor enters \<open>art\<close>;
  the flight completes and the next frame reports \<open>parkedAtParent\<close>. A click on the
  moon \<open>github\<close> of \<open>dev\<close> then queues the link and makes \<open>dev\<close> the active section,
  but the pending-link effect runs in the same commit, still reads the stored phase
  \<open>ParkedAtParent\<close> that was reported for \<open>art\<close>, and opens the link at once. After
  the click, with no frame and so no camera report in between, the state is already at
  the link and the flight to the parent has been replaced by a \<open>flyToSub\<close> flight that
  has not advanced.
\<close>

theorem moon_click_from_parked_section_skips_parking:
  "observe nav_view (perform_all enter_art_and_park initial_world)
     = Some (Some ''art'', None, None, ParkedAtParent)
   \<and> observe flight_view (perform_all enter_art_and_park initial_world)
     = Some (False, FlyToParent, 1, 0)
   \<and> observe (release_view (pick_node (HitSub 1 1 (4 / 5))) (400, 300))
        (perform_all (enter_art_and_park @ [MouseDown (400, 300)]) initial_world)
     = Some (SubSphereClicked ''dev'' ''github'')
   \<and> observe nav_view
        (perform_all
           (enter_art_and_park
            @ [MouseDown (400, 300), MouseUp (pick_node (HitSub 1 1 (4 / 5))) (400, 300)])
           initial_world)
     = Some (Some ''dev'', Some ''github'', None, ParkedAtParent)
   \<and> observe flight_view
        (perform_all
           (enter_art_and_park
            @ [MouseDown (400, 300), MouseUp (pick_node (HitSub 1 1 (4 / 5))) (400, 300)])
           initial_world)
     = Some (True, FlyToSub, 0, 1)"
  by (simp add: eval_defs example_indices)

text \<open>
  Claim C1, at the input where the code departs from it. The visitor enters \<open>dev\<close>;
  the flight completes and the next frame reports \<open>parkedAtParent\<close>. A click on the
  moon \<open>classes\<close> of \<open>yoga\<close> calls the moon handler, which queues \<open>classes\<close> and
  makes \<open>yoga\<close> the active section. In the same commit the pending-link effect finds
  the stored phase \<open>ParkedAtParent\<close>, the report sent while \<open>dev\<close> was active, and
  consumes the queued link: after the click the queue is empty and \<open>classes\<close> is the
  active link, although the camera has reported nothing since \<open>yoga\<close> became the active
  section.
\<close>

theorem queued_link_promoted_on_stale_report:
  "observe nav_view (perform_all enter_dev_and_park initial_world)
     = Some (Some ''dev'', None, None, ParkedAtParent)
   \<and> observe (release_view (pick_node (HitSub 2 0 (4 / 5))) (400, 300))
        (perform_all (enter_dev_and_park @ [MouseDown (400, 300)]) initial_world)
     = Some (SubSphereClicked ''yoga'' ''classes'')
   \<and> observe (\<lambda>w. nav_view (w\<lparr>app := handleClickSubSphere ''yoga'' ''classes'' (app w)\<rparr>))
        (perform_all (enter_dev_and_park @ [MouseDown (400, 300)]) initial_world)
     = Some (Some ''yoga'', None, Some ''classes'', ParkedAtParent)
   \<and> observe nav_view
        (perform_all
           (enter_dev_and_park
            @ [MouseDown (400, 300), MouseUp (pick_node (HitSub 2 0 (4 / 5))) (400, 300)])
           initial_world)
     = Some (Some ''yoga'', Some ''classes'', None, ParkedAtParent)
   \<and> observe flight_view
        (perform_all
           (enter_dev_and_park
            @ [MouseDown (400, 300), MouseUp (pick_node (HitSub 2 0 (4 / 5))) (400, 300)])
           initial_world)
     = Some (True, FlyToSub, 0, 2)"
  by (simp add: eval_defs example_indices enter_dev_and_park_def)

section \<open>The look-at at the start of a flight\<close>

text \<open>
  Claim C3, at the input where the code departs from it. The visitor enters \<open>art\<close>
  and the flight completes, looking at the planet at \<open>(1, 0, 0)\<close>. The camera parks, and
  each parked frame turns it to the planet's place by then, a minute later
  \<open>(4/5, 0, 3/5)\<close>; but the parked branch does not store that look-at in the animation
  record, which keeps \<open>(1, 0, 0)\<close>. A click on the moon \<open>email\<close> of \<open>contact\<close> then
  starts the flight to \<open>contact\<close> and, in the same commit, replaces it by the flight
  to the moon. The new flight's start position is the camera's position, but its start
  look-at is \<open>(1, 0, 0)\<close> while the camera looks at \<open>(4/5, 0, 3/5)\<close>. The same
  happens when a section click starts the flight to \<open>dev\<close> and "back" replaces it by
  the flight home before a frame is rendered.
\<close>

theorem interrupting_flight_starts_from_stale_look_at:
  "observe nav_view (perform_all park_at_moving_art initial_world)
     = Some (Some ''art'', None, None, ParkedAtParent)
   \<and> observe look_view (perform_all park_at_moving_art initial_world)
     = Some (Some (4 / 5, 0, 3 / 5), (1, 0, 0), (0, 0, 0))
   \<and> observe flight_view
        (perform_all
           (park_at_moving_art
            @ [MouseDown (400, 300), MouseUp (pick_node (HitSub 4 0 (4 / 5))) (400, 300)])
           initial_world)
     = Some (True, FlyToSub, 0, 4)
   \<and> observe look_view
        (perform_all
           (park_at_moving_art
            @ [MouseDown (400, 300), MouseUp (pick_node (HitSub 4 0 (4 / 5))) (400, 300)])
           initial_world)
     = Some (Some (4 / 5, 0, 3 / 5), (1, 0, 0), (1, 0, 0))
   \<and> observe start_at_camera
        (perform_all
           (park_at_moving_art
            @ [MouseDown (400, 300), MouseUp (pick_node (HitSub 4 0 (4 / 5))) (400, 300)])
           initial_world)
     = Some True
   \<and> observe flight_view
        (perform_all (park_at_moving_art @ [Command (ClickSection ''dev'')]) initial_world)
     = Some (True, FlyToParent, 0, 1)
   \<and> observe flight_view
        (perform_all (park_at_moving_art @ [Command (ClickSection ''dev''), Command Back])
           initial_world)
     = Some (True, FlyHome, 0, - 1)
   \<and> observe look_view
        (perform_all (park_at_moving_art @ [Command (ClickSection ''dev''), Command Back])
           initial_world)
     = Some (Some (4 / 5, 0, 3 / 5), (1, 0, 0), (1, 0, 0))"
  by (simp add: eval_defs example_indices park_at_moving_art_def example_env_later_def
        look_view_def start_at_camera_def sectionIndexOf_def linkIndexOf_def)

section \<open>Further properties of the navigation core\<close>

subsection \<open>The sample count of the orbit curve\<close>

lemma gcd_loop_gcd: "gcd_loop a b = gcd a b"
proof (induction a b rule: gcd_loop.induct)
  case (1 a b)
  show ?case
  proof (cases "b = 0")
    case True
    then show ?thesis by (subst gcd_loop.simps) simp
  next
    case False
    then have "gcd_loop a b = gcd_loop b (a mod b)" by (subst gcd_loop.simps) simp
    also have "\<dots> = gcd b (a mod b)" using 1 False by simp
    also have "\<dots> = gcd a b" by (metis gcd.commute gcd_red_nat)
    finally show ?thesis .
  qed
qed

lemma stepsToClose_lcm: "stepsToClose sections spans = lcm sections spans"
  by (simp add: stepsToClose_def gcd_loop_gcd lcm_nat_def)

lemma full_turns:
  assumes "d dvd n" and "0 < d"
  shows "cos ((real n / real d) * pi * 2) = 1 \<and> sin ((real n / real d) * pi * 2) = 0"
proof -
  from assms obtain k where k: "n = d * k" by (auto simp: dvd_def)
  with \<open>0 < d\<close> have "real n / real d = real k" by simp
  then have e: "(real n / real d) * pi * 2 = 2 * real k * pi" by simp
  show ?thesis unfolding e by (simp add: cos_2npi sin_2npi)
qed

text \<open>
  The sample count is the least common multiple of the two segment counts: after that
  many steps the raw torus-knot point is back at the first one, and no smaller positive
  count is a multiple of both segment counts.
\<close>

theorem torus_knot_closes:
  assumes "0 < sections" and "0 < spans"
  shows "stepsToClose sections spans = lcm sections spans
     \<and> rawPoint radius minorRadius sections spans (stepsToClose sections spans)
         = rawPoint radius minorRadius sections spans 0
     \<and> (\<forall>n. 0 < n \<and> sections dvd n \<and> spans dvd n \<longrightarrow> stepsToClose sections spans \<le> n)"
proof -
  let ?N = "stepsToClose sections spans"
  have N: "?N = lcm sections spans" by (rule stepsToClose_lcm)
  have a: "sections dvd ?N" "spans dvd ?N" by (simp_all add: N)
  have p: "rawPoint radius minorRadius sections spans ?N
         = rawPoint radius minorRadius sections spans 0"
    using full_turns [OF a(1) assms(1)] full_turns [OF a(2) assms(2)]
    by (simp add: rawPoint_def Let_def)
  have m: "\<forall>n. 0 < n \<and> sections dvd n \<and> spans dvd n \<longrightarrow> ?N \<le> n"
  proof (intro allI impI)
    fix n assume h: "0 < n \<and> sections dvd n \<and> spans dvd n"
    then have "lcm sections spans dvd n" by simp
    then show "?N \<le> n" using h N by (simp add: dvd_imp_le)
  qed
  show ?thesis using N p m by blast
qed

lemma gcd_loop_11_12: "gcd_loop 11 12 = 1"
proof -
  have "gcd_loop 11 12 = gcd_loop 12 11" by (subst gcd_loop.simps) simp
  also have "\<dots> = gcd_loop 11 1" by (subst gcd_loop.simps) simp
  also have "\<dots> = gcd_loop 1 0" by (subst gcd_loop.simps) simp
  also have "\<dots> = 1" by (subst gcd_loop.simps) simp
  finally show ?thesis .
qed

theorem torus_knot_closes_witness:
  "stepsToClose 11 12 = 132
   \<and> rawPoint 1 (7 / 10) 11 12 132 = rawPoint 1 (7 / 10) 11 12 0
   \<and> rawPoint 1 (7 / 10) 11 12 0 = (17 / 10, 0, 0)"
proof -
  have n: "stepsToClose 11 12 = 132" by (simp add: stepsToClose_def gcd_loop_11_12)
  have z: "rawPoint 1 (7 / 10) 11 12 0 = (17 / 10, 0, 0)" by (simp add: rawPoint_def)
  show ?thesis
    using torus_knot_closes [of 11 12 1 "7 / 10"] n z by simp
qed

subsection \<open>Flight progress and pacing\<close>

text \<open>
  A flight frame advances the progress by \<open>delta / duration\<close>, clamps it at 1, marks
  the flight inactive once 1 is reached, and reports the flight's phase with the new
  progress.
\<close>

theorem flight_progress_clamps:
  assumes "flight_frame delta env cam sc = Inr (sc', r)"
  shows "progress (cameraAnimRef sc')
           = min 1 (progress (cameraAnimRef sc) + delta / duration (cameraAnimRef sc))
     \<and> active (cameraAnimRef sc')
           = (active (cameraAnimRef sc)
              \<and> progress (cameraAnimRef sc) + delta / duration (cameraAnimRef sc) < 1)
     \<and> r = Some (phase (cameraAnimRef sc), progress (cameraAnimRef sc'))"
  using assms
  by (auto simp: flight_frame_def Let_def split: sum.splits prod.splits if_splits)

theorem flight_progress_clamps_witness:
  "flight_frame 1 example_env initial_camera sc_art_flying
     = Inr (sc_art_midflight, Some (FlyToParent, 2 / 5))
   \<and> progress (cameraAnimRef sc_art_midflight) = 2 / 5
   \<and> active (cameraAnimRef sc_art_midflight)"
  using flight_progress_clamps [OF art_midflight_frame] art_midflight_frame
  by (simp add: sc_art_midflight_def)

text \<open>
  The pacing curve starts at 0, passes one half at one half and ends at 1, so a flight
  frame at progress 0 would leave the camera at the recorded start and the last frame
  puts it on the target.
\<close>

theorem flight_pacing_ends:
  "easeInOutCubic 0 = 0 \<and> easeInOutCubic (1 / 2) = 1 / 2 \<and> easeInOutCubic 1 = 1
   \<and> lerpVectors a b (easeInOutCubic 0) = a \<and> lerpVectors a b (easeInOutCubic 1) = b"
  by (cases a; cases b) (simp add: easeInOutCubic_def power3_eq_cube)

subsection \<open>Zoom target\<close>

lemma trigger_zoom: "targetZoomRef (camera_fly_trigger sec lnk sc) = targetZoomRef sc"
  by (simp add: camera_fly_trigger_def Let_def split: option.splits)

lemma commit_zoom: "targetZoomRef (scene3d (commit old w)) = targetZoomRef (scene3d w)"
  by (simp add: commit_def Let_def trigger_zoom)

lemma user_event_zoom: "targetZoomRef (scene3d (user_event h w)) = targetZoomRef (scene3d w)"
  by (simp add: user_event_def commit_zoom)

lemma dispatch_click_zoom:
  "targetZoomRef (scene3d (dispatch_click out w)) = targetZoomRef (scene3d w)"
  by (cases out) (simp_all add: dispatch_click_def user_event_zoom)

lemma animate_zoom:
  "animate time delta sec lnk env sc = Inr (sc', r) \<Longrightarrow> targetZoomRef sc' = targetZoomRef sc"
  by (auto simp: animate_def Let_def animate_rotation_def flight_frame_def home_orbit_def
        parked_at_parent_def parked_at_sub_def
        split: option.splits if_splits sum.splits prod.splits)

lemma frame_zoom:
  "frame time delta env w = Inr w' \<Longrightarrow> targetZoomRef (scene3d w') = targetZoomRef (scene3d w)"
  by (auto simp: frame_def user_event_zoom
        split: sum.splits prod.splits option.splits dest: animate_zoom)

lemma perform_zoom_ok: "perform a w = Inr w' \<Longrightarrow> zoom_ok w \<Longrightarrow> zoom_ok w'"
proof (cases a)
  case (Frame t d env)
  assume "perform a w = Inr w'" "zoom_ok w"
  then show ?thesis
    using Frame frame_zoom [of t d env w w'] by (simp add: zoom_ok_def zoom_view_def)
next
  case (Command e)
  assume "perform a w = Inr w'" "zoom_ok w"
  then show ?thesis
    using Command by (cases e) (auto simp: zoom_ok_def zoom_view_def user_event_zoom)
qed (auto simp: zoom_ok_def zoom_view_def user_event_zoom dispatch_click_zoom mouse_up_def
       Let_def onMD_def onMM_def onMU_def onWH_def onTS_def onTM_def onTE_def
       split: option.splits)

lemma perform_all_zoom_ok: "perform_all as w = Inr w' \<Longrightarrow> zoom_ok w \<Longrightarrow> zoom_ok w'"
proof (induction as arbitrary: w)
  case Nil
  then show ?case by simp
next
  case (Cons a as)
  then show ?case by (auto split: sum.splits dest: perform_zoom_ok)
qed

text \<open>
  Whatever events and frames the page receives after mount, in any number and of any
  magnitude, the zoom target stays within \<open>[2, 8]\<close>.
\<close>

theorem zoom_target_always_clamped:
  assumes "perform_all as initial_world = Inr w"
  shows "2 \<le> zoom_view w \<and> zoom_view w \<le> 8"
proof -
  have "zoom_ok initial_world"
    by (simp add: zoom_ok_def zoom_view_def initial_world_def initial_scene_def trigger_zoom)
  then have "zoom_ok w" using assms by (rule perform_all_zoom_ok [rotated])
  then show ?thesis by (simp add: zoom_ok_def)
qed

theorem zoom_target_always_clamped_witness:
  "perform_all [Wheel 100000] initial_world
     = Inr (initial_world\<lparr>scene3d := onWH 100000 None (scene3d initial_world)\<rparr>)
   \<and> zoom_view (initial_world\<lparr>scene3d := onWH 100000 None (scene3d initial_world)\<rparr>) = 8"
proof -
  have e: "perform_all [Wheel 100000] initial_world
     = Inr (initial_world\<lparr>scene3d := onWH 100000 None (scene3d initial_world)\<rparr>)"
    by (simp add: initial_world_def initial_app_def)
  have z: "zoom_view (initial_world\<lparr>scene3d := onWH 100000 None (scene3d initial_world)\<rparr>) = 8"
    by (simp add: eval_defs)
  show ?thesis using zoom_target_always_clamped [OF e] e z by simp
qed

text \<open>
  Where zoom input is ignored: a wheel event while a camera animation is active or a
  section is active changes nothing; a touch move leaves the zoom target alone while a
  section is active and while no pinch baseline is recorded; and a touch start while a
  camera animation is active records nothing, so no pinch can begin during a flight.
\<close>

theorem zoom_input_gates:
  "(active (cameraAnimRef sc) \<or> truthy sec \<longrightarrow> onWH deltaY sec sc = sc)
   \<and> (truthy sec \<or> pinchStartRef sc = None \<longrightarrow>
        targetZoomRef (onTM touches sec sc) = targetZoomRef sc)
   \<and> (active (cameraAnimRef sc) \<longrightarrow> onTS touches sc = sc)"
  by (auto simp: onWH_def onTM_def onTS_def Let_def)

theorem zoom_input_gates_witness:
  "active (cameraAnimRef sc_dev)
   \<and> onWH 100 None sc_dev = sc_dev
   \<and> onTS [(100, 100), (300, 100)] sc_dev = sc_dev
   \<and> targetZoomRef (onTM [(100, 100), (300, 100)] (Some ''dev'') sc_dev) = targetZoomRef sc_dev"
proof -
  have a: "active (cameraAnimRef sc_dev)"
    by (simp add: sc_dev_def sc_home_eq camera_fly_trigger_def Let_def)
  show ?thesis
    using a zoom_input_gates [of sc_dev None 100 "[(100, 100), (300, 100)]"]
      zoom_input_gates [of sc_dev "Some ''dev''" 100 "[(100, 100), (300, 100)]"]
    by simp
qed

subsection \<open>A moon chosen from the home view\<close>

text \<open>
  From the mounted page, choosing the moon \<open>classes\<close> of \<open>yoga\<close> makes \<open>yoga\<close> the
  active section with the link queued and starts the 2.5 s flight to the parent. The
  link stays queued while the flight is reported, also by the frame that completes it;
  the frame that reports \<open>parkedAtParent\<close> opens the link and the flight to the moon
  begins.
\<close>

theorem moon_from_home_waits_for_parking:
  "observe nav_view (perform_all (take 1 moon_from_home) initial_world)
     = Some (Some ''yoga'', None, Some ''classes'', Idle)
   \<and> observe flight_view (perform_all (take 1 moon_from_home) initial_world)
     = Some (True, FlyToParent, 0, 2)
   \<and> observe nav_view (perform_all (take 2 moon_from_home) initial_world)
     = Some (Some ''yoga'', None, Some ''classes'', FlyToParent)
   \<and> observe nav_view (perform_all moon_from_home initial_world)
     = Some (Some ''yoga'', None, Some ''classes'', FlyToParent)
   \<and> observe flight_view (perform_all moon_from_home initial_world)
     = Some (False, FlyToParent, 1, 2)
   \<and> observe nav_view
        (perform_all (moon_from_home @ [Frame (181 / 60) (1 / 60) example_env]) initial_world)
     = Some (Some ''yoga'', Some ''classes'', None, ParkedAtParent)
   \<and> observe flight_view
        (perform_all (moon_from_home @ [Frame (181 / 60) (1 / 60) example_env]) initial_world)
     = Some (True, FlyToSub, 0, 2)"
  by (simp add: eval_defs example_indices)

end
